theory Spec2Isabelle
  imports Complex_Main "HOL-Library.Char_ord" "HOL-Library.List_Lexorder"
begin

section \<open>Data model\<close>

text \<open>
  The handlers of \<^verbatim>\<open>src/actions/admin.js\<close>, \<^verbatim>\<open>src/unnamed/part_000\<close> (the
  TypeScript variant of the admin handlers) and \<^verbatim>\<open>src/unnamed/part_001\<close> (the
  marketplace handlers) work on the tables of a relational store. A table is the list
  of its rows; only the columns the handlers read or write are kept. Decimal prices
  are rationals, dates are instants (a natural number; \<^verbatim>\<open>toISOString\<close> renders
  the instant and is left implicit). A number of JavaScript is a binary64 value: a
  finite one is modelled by its exact rational value, and arithmetic rounds to the
  nearest such value.
\<close>

datatype Role = USER | ADMIN

datatype CarStatus = AVAILABLE | UNAVAILABLE | SOLD

record User =
  user_id :: string
  user_clerkUserId :: string
  user_role :: Role
  user_name :: string
  user_email :: string
  user_imageUrl :: string
  user_phone :: string

record Car =
  car_id :: string
  car_make :: string
  car_model :: string
  car_description :: string
  car_bodyType :: string
  car_fuelType :: string
  car_transmission :: string
  car_price :: rat
  car_status :: CarStatus
  car_featured :: bool
  car_createdAt :: nat

text \<open>
  The status of a booking is kept as the string the handlers compare it with:
  \<^verbatim>\<open>updateTestDriveStatus\<close> receives the new status as a string from its caller.
\<close>

record TestDriveBooking =
  b_id :: string
  b_carId :: string
  b_userId :: string
  b_bookingDate :: nat
  b_startTime :: string
  b_endTime :: string
  b_status :: string
  b_notes :: string
  b_createdAt :: nat
  b_updatedAt :: nat

text \<open>The two columns \<^verbatim>\<open>toggleSavedCar\<close> writes; they form the key \<^verbatim>\<open>userId_carId\<close>.\<close>

record UserSavedCar =
  sc_userId :: string
  sc_carId :: string

record WorkingHour =
  wh_id :: string
  wh_createdAt :: nat
  wh_updatedAt :: nat

record DealershipInfo =
  dl_id :: string
  dl_createdAt :: nat
  dl_updatedAt :: nat
  dl_workingHours :: "WorkingHour list"

text \<open>
  The state the handlers run against: the tables of the store and the paths handed to
  \<^verbatim>\<open>revalidatePath\<close> so far.
\<close>

record World =
  users :: "User list"
  cars :: "Car list"
  testDriveBookings :: "TestDriveBooking list"
  userSavedCars :: "UserSavedCar list"
  dealershipInfo :: "DealershipInfo list"
  revalidated :: "string list"

text \<open>
  Every handler answers with an envelope: \<open>Inl msg\<close> is \<^verbatim>\<open>success: false\<close> with the
  error message \<open>msg\<close>, \<open>Inr d\<close> is \<^verbatim>\<open>success: true\<close> with the data \<open>d\<close>.
\<close>

type_synonym 'a envelope = "string + 'a"

section \<open>JavaScript values and built-ins\<close>

text \<open>
  A price parameter of \<^verbatim>\<open>getCars\<close> is a JavaScript value: a number (possibly
  \<^verbatim>\<open>NaN\<close> or infinite) or a string. What the built-ins \<^verbatim>\<open>parseFloat\<close>,
  \<^verbatim>\<open>Number\<close> and \<^verbatim>\<open>String.prototype.toLowerCase\<close> make of a string is a
  parameter of the model: the properties below hold whatever they return.
\<close>

datatype jsnum = NaN | Num rat | PosInf | NegInf

datatype jsval = JNumber jsnum | JString string

record JsBuiltins =
  parseFloatStr :: "string \<Rightarrow> jsnum"
  toNumberStr :: "string \<Rightarrow> jsnum"
  toLowerCaseStr :: "string \<Rightarrow> string"

definition MAX_SAFE_INTEGER :: rat where
  "MAX_SAFE_INTEGER = 9007199254740991"

definition truthy :: "jsval \<Rightarrow> bool" where
  "truthy v =
     (case v of
        JNumber NaN \<Rightarrow> False
      | JNumber (Num r) \<Rightarrow> r \<noteq> 0
      | JNumber PosInf \<Rightarrow> True
      | JNumber NegInf \<Rightarrow> True
      | JString s \<Rightarrow> s \<noteq> [])"

definition parseFloat :: "JsBuiltins \<Rightarrow> jsval \<Rightarrow> jsnum" where
  "parseFloat rt v = (case v of JNumber n \<Rightarrow> n | JString s \<Rightarrow> parseFloatStr rt s)"

definition toNumber :: "JsBuiltins \<Rightarrow> jsval \<Rightarrow> jsnum" where
  "toNumber rt v = (case v of JNumber n \<Rightarrow> n | JString s \<Rightarrow> toNumberStr rt s)"

text \<open>\<^verbatim>\<open>v < m\<close> for a finite number \<open>m\<close>: false when \<open>v\<close> converts to \<^verbatim>\<open>NaN\<close>.\<close>

definition lessThanNumber :: "JsBuiltins \<Rightarrow> jsval \<Rightarrow> rat \<Rightarrow> bool" where
  "lessThanNumber rt v m =
     (case toNumber rt v of
        NaN \<Rightarrow> False
      | Num r \<Rightarrow> r < m
      | PosInf \<Rightarrow> False
      | NegInf \<Rightarrow> True)"

text \<open>\<^verbatim>\<open>parseFloat(v) || 0\<close>: the infinities are truthy.\<close>

definition parseFloatOrZero :: "JsBuiltins \<Rightarrow> jsval \<Rightarrow> jsnum" where
  "parseFloatOrZero rt v =
     (case parseFloat rt v of
        NaN \<Rightarrow> Num 0
      | Num r \<Rightarrow> if r \<noteq> 0 then Num r else Num 0
      | PosInf \<Rightarrow> PosInf
      | NegInf \<Rightarrow> NegInf)"

definition isFinite :: "jsnum \<Rightarrow> bool" where
  "isFinite n = (case n of Num r \<Rightarrow> True | _ \<Rightarrow> False)"

subsection \<open>Binary64 arithmetic\<close>

text \<open>
  \<open>roundDouble x\<close> is the binary64 value nearest to \<open>x\<close>, the one with an even
  significand at a tie: 53 significant bits, the smallest exponent -1022. The exponent is
  not bounded above: the counts and prices of the handlers are far below the binary64
  range, and the one quantity that can leave it is \<^verbatim>\<open>skip\<close>, which the store
  refuses from \<open>2 ^ 63\<close> on, finite or not.
\<close>

text \<open>The number of binary digits of a positive integer.\<close>

fun bitLength :: "int \<Rightarrow> nat" where
  "bitLength n = (if n \<le> 0 then 0 else Suc (bitLength (n div 2)))"

declare bitLength.simps [simp del]

text \<open>For \<open>0 < x\<close>, the integer \<open>e\<close> with \<open>2 ^ e \<le> x < 2 ^ (e + 1)\<close>.\<close>

definition floorLog2 :: "rat \<Rightarrow> int" where
  "floorLog2 x =
     (if 1 \<le> x then int (bitLength \<lfloor>x\<rfloor>) - 1
      else - int (bitLength (\<lceil>1 / x\<rceil> - 1)))"

definition twoToThe :: "int \<Rightarrow> rat" where
  "twoToThe e = (if 0 \<le> e then 2 ^ nat e else 1 / 2 ^ nat (- e))"

definition roundHalfEven :: "rat \<Rightarrow> int" where
  "roundHalfEven x =
     (let f = \<lfloor>x\<rfloor>; d = x - of_int f
      in if d < 1 / 2 then f else if 1 / 2 < d then f + 1 else if even f then f else f + 1)"

definition roundDouble :: "rat \<Rightarrow> rat" where
  "roundDouble x =
     (if x = 0 then 0
      else (let e = max (floorLog2 \<bar>x\<bar>) (- 1022); u = twoToThe (e - 52)
            in of_int (roundHalfEven (x / u)) * u))"

section \<open>The store\<close>

text \<open>
  The relational store is outside the sources. Its documented contract is modelled as it
  stands: a \<^verbatim>\<open>where\<close> object selects the rows that satisfy all its clauses,
  \<^verbatim>\<open>orderBy\<close> sorts, \<^verbatim>\<open>skip\<close> and \<^verbatim>\<open>take\<close> cut a window. Two things are
  parameters of the model, and the properties below hold whatever they are: which strings
  the case-insensitive text filters match (\<open>st_contains field t\<close> for
  \<^verbatim>\<open>{ contains: t, mode: "insensitive" }\<close>, \<open>st_equals field t\<close> for
  \<^verbatim>\<open>{ equals: t, mode: "insensitive" }\<close>), and which car queries the store refuses by
  raising an exception, beyond those the model itself names (\<open>st_refuses\<close>, of the
  \<^verbatim>\<open>where\<close> object, \<^verbatim>\<open>take\<close> and \<^verbatim>\<open>skip\<close>).
\<close>

text \<open>The \<^verbatim>\<open>where\<close> object of \<^verbatim>\<open>getCars\<close>; \<open>None\<close> is a clause that was not attached.\<close>

record CarWhere =
  wh_status :: CarStatus
  wh_OR :: "string option"
  wh_make :: "string option"
  wh_bodyType :: "string option"
  wh_fuelType :: "string option"
  wh_transmission :: "string option"
  wh_price_gte :: jsnum
  wh_price_lte :: "jsnum option"

record Store =
  st_contains :: "string \<Rightarrow> string \<Rightarrow> bool"
  st_equals :: "string \<Rightarrow> string \<Rightarrow> bool"
  st_refuses :: "CarWhere \<Rightarrow> int \<Rightarrow> int \<Rightarrow> bool"

section \<open>Identity\<close>

text \<open>
  \<^verbatim>\<open>auth()\<close> yields the credential of the request: \<open>None\<close> when there is no
  session, \<open>Some uid\<close> otherwise. \<^verbatim>\<open>!userId\<close> also holds for the empty string.
\<close>

definition user_findUnique :: "User list \<Rightarrow> string \<Rightarrow> User option" where
  "user_findUnique us clerkId = find (\<lambda>u. user_clerkUserId u = clerkId) us"

text \<open>\<^verbatim>\<open>getDbAdmin\<close> of \<^verbatim>\<open>src/actions/admin.js\<close>: \<open>None\<close> is its \<^verbatim>\<open>null\<close>.\<close>

definition getDbAdmin :: "World \<Rightarrow> string option \<Rightarrow> User option" where
  "getDbAdmin w userId =
     (case userId of
        None \<Rightarrow> None
      | Some uid \<Rightarrow>
          if uid = [] then None
          else (case user_findUnique (users w) uid of
                  None \<Rightarrow> None
                | Some user \<Rightarrow> if user_role user \<noteq> ADMIN then None else Some user))"

text \<open>\<^verbatim>\<open>requireAdmin\<close> of \<^verbatim>\<open>src/unnamed/part_000\<close>: \<open>Inl msg\<close> is \<^verbatim>\<open>throw new Error(msg)\<close>.\<close>

definition requireAdmin :: "World \<Rightarrow> string option \<Rightarrow> string + User" where
  "requireAdmin w userId =
     (case userId of
        None \<Rightarrow> Inl ''Unauthorized''
      | Some uid \<Rightarrow>
          if uid = [] then Inl ''Unauthorized''
          else (case user_findUnique (users w) uid of
                  None \<Rightarrow> Inl ''Unauthorized access''
                | Some user \<Rightarrow>
                    if user_role user \<noteq> ADMIN then Inl ''Unauthorized access'' else Inr user))"

text \<open>\<^verbatim>\<open>getDbUser\<close> of \<^verbatim>\<open>src/unnamed/part_001\<close>.\<close>

definition getDbUser :: "World \<Rightarrow> string option \<Rightarrow> User option" where
  "getDbUser w userId =
     (case userId of
        None \<Rightarrow> None
      | Some uid \<Rightarrow> if uid = [] then None else user_findUnique (users w) uid)"

section \<open>Dashboard statistics\<close>

record CarStats =
  cs_total :: nat
  cs_available :: nat
  cs_sold :: nat
  cs_unavailable :: nat
  cs_featured :: nat

record TestDriveStats =
  td_total :: nat
  td_pending :: nat
  td_confirmed :: nat
  td_completed :: nat
  td_cancelled :: nat
  td_noShow :: nat
  td_conversionRate :: rat

record DashboardData =
  dd_cars :: CarStats
  dd_testDrives :: TestDriveStats

text \<open>
  \<^verbatim>\<open>parseFloat(x.toFixed(2))\<close>. \<^verbatim>\<open>toFixed(2)\<close> writes the sign and the
  multiple of 1/100 nearest to the exact value of \<open>\<bar>x\<bar>\<close>, the larger one at a tie
  (the number itself from \<open>10 ^ 21\<close> on), and \<^verbatim>\<open>parseFloat\<close> reads the binary64
  value nearest to that decimal.
\<close>

definition toFixed2 :: "rat \<Rightarrow> rat" where
  "toFixed2 x =
     (if 10 ^ 21 \<le> \<bar>x\<bar> then x
      else roundDouble (sgn x * of_int \<lfloor>\<bar>x\<bar> * 100 + 1 / 2\<rfloor> / 100))"

text \<open>\<^verbatim>\<open>testDrives.filter((td) => td.status === s).length\<close>\<close>

definition countStatus :: "string \<Rightarrow> TestDriveBooking list \<Rightarrow> nat" where
  "countStatus s testDrives = length (filter (\<lambda>td. b_status td = s) testDrives)"

text \<open>The array \<^verbatim>\<open>completedCarIds\<close> of \<^verbatim>\<open>src/actions/admin.js\<close>.\<close>

definition completedCarIds :: "TestDriveBooking list \<Rightarrow> string list" where
  "completedCarIds testDrives =
     map b_carId (filter (\<lambda>td. b_status td = ''COMPLETED'') testDrives)"

definition soldAfterTD :: "Car list \<Rightarrow> TestDriveBooking list \<Rightarrow> nat" where
  "soldAfterTD cs testDrives =
     length (filter (\<lambda>c. car_status c = SOLD \<and> car_id c \<in> set (completedCarIds testDrives)) cs)"

text \<open>The \<^verbatim>\<open>Set\<close> \<^verbatim>\<open>completedCarIds\<close> of \<^verbatim>\<open>src/unnamed/part_000\<close>.\<close>

definition completedCarIdSet :: "TestDriveBooking list \<Rightarrow> string set" where
  "completedCarIdSet testDrives =
     set (map b_carId (filter (\<lambda>td. b_status td = ''COMPLETED'') testDrives))"

definition soldAfterTestDrive :: "Car list \<Rightarrow> TestDriveBooking list \<Rightarrow> nat" where
  "soldAfterTestDrive cs testDrives =
     length (filter (\<lambda>c. car_status c = SOLD \<and> car_id c \<in> completedCarIdSet testDrives) cs)"

text \<open>
  \<^verbatim>\<open>completed > 0 ? (sold / completed) * 100 : 0\<close>: the division and the
  multiplication each round to binary64.
\<close>

definition conversionRate :: "nat \<Rightarrow> nat \<Rightarrow> rat" where
  "conversionRate sold completed =
     (if completed > 0
      then roundDouble (roundDouble (of_nat sold / of_nat completed) * 100)
      else 0)"

definition carStats :: "Car list \<Rightarrow> CarStats" where
  "carStats cs =
     \<lparr> cs_total = length cs,
       cs_available = length (filter (\<lambda>c. car_status c = AVAILABLE) cs),
       cs_sold = length (filter (\<lambda>c. car_status c = SOLD) cs),
       cs_unavailable = length (filter (\<lambda>c. car_status c = UNAVAILABLE) cs),
       cs_featured = length (filter (\<lambda>c. car_featured c) cs) \<rparr>"

text \<open>\<^verbatim>\<open>getDashboardData\<close> of \<^verbatim>\<open>src/actions/admin.js\<close>.\<close>

definition getDashboardData :: "World \<Rightarrow> string option \<Rightarrow> DashboardData envelope" where
  "getDashboardData w userId =
     (case getDbAdmin w userId of
        None \<Rightarrow> Inl ''Unauthorized''
      | Some admin \<Rightarrow>
          (let cs = cars w;
               testDrives = testDriveBookings w;
               completed = countStatus ''COMPLETED'' testDrives;
               rate = conversionRate (soldAfterTD cs testDrives) completed
           in Inr \<lparr> dd_cars = carStats cs,
                    dd_testDrives =
                      \<lparr> td_total = length testDrives,
                        td_pending = countStatus ''PENDING'' testDrives,
                        td_confirmed = countStatus ''CONFIRMED'' testDrives,
                        td_completed = completed,
                        td_cancelled = countStatus ''CANCELLED'' testDrives,
                        td_noShow = countStatus ''NO_SHOW'' testDrives,
                        td_conversionRate = toFixed2 rate \<rparr> \<rparr>))"

text \<open>
  \<^verbatim>\<open>getDashboardData\<close> of \<^verbatim>\<open>src/unnamed/part_000\<close>: the error thrown by
  \<^verbatim>\<open>requireAdmin\<close> is caught and its message returned.
\<close>

definition getDashboardData_part000 :: "World \<Rightarrow> string option \<Rightarrow> DashboardData envelope" where
  "getDashboardData_part000 w userId =
     (case requireAdmin w userId of
        Inl msg \<Rightarrow> Inl msg
      | Inr admin \<Rightarrow>
          (let cs = cars w;
               testDrives = testDriveBookings w;
               completed = countStatus ''COMPLETED'' testDrives;
               rate = conversionRate (soldAfterTestDrive cs testDrives) completed
           in Inr \<lparr> dd_cars = carStats cs,
                    dd_testDrives =
                      \<lparr> td_total = length testDrives,
                        td_pending = countStatus ''PENDING'' testDrives,
                        td_confirmed = countStatus ''CONFIRMED'' testDrives,
                        td_completed = completed,
                        td_cancelled = countStatus ''CANCELLED'' testDrives,
                        td_noShow = countStatus ''NO_SHOW'' testDrives,
                        td_conversionRate = toFixed2 rate \<rparr> \<rparr>))"

section \<open>Test-drive administration\<close>

definition car_findUnique :: "Car list \<Rightarrow> string \<Rightarrow> Car option" where
  "car_findUnique cs carId = find (\<lambda>c. car_id c = carId) cs"

definition testDriveBooking_findUnique :: "TestDriveBooking list \<Rightarrow> string \<Rightarrow> TestDriveBooking option" where
  "testDriveBooking_findUnique bs bookingId = find (\<lambda>b. b_id b = bookingId) bs"

text \<open>\<^verbatim>\<open>db.testDriveBooking.update({ where: { id }, data: { status } })\<close>\<close>

definition testDriveBooking_update :: "TestDriveBooking list \<Rightarrow> string \<Rightarrow> string \<Rightarrow> TestDriveBooking list" where
  "testDriveBooking_update bs bookingId newStatus =
     map (\<lambda>b. if b_id b = bookingId then b\<lparr>b_status := newStatus\<rparr> else b) bs"

definition validStatuses :: "string list" where
  "validStatuses = [''PENDING'', ''CONFIRMED'', ''COMPLETED'', ''CANCELLED'', ''NO_SHOW'']"

text \<open>
  \<^verbatim>\<open>updateTestDriveStatus\<close> of \<^verbatim>\<open>src/actions/admin.js\<close>: the envelope and the
  state after the call.
\<close>

definition updateTestDriveStatus :: "World \<Rightarrow> string option \<Rightarrow> string \<Rightarrow> string \<Rightarrow> string envelope \<times> World" where
  "updateTestDriveStatus w userId bookingId newStatus =
     (case getDbAdmin w userId of
        None \<Rightarrow> (Inl ''Unauthorized'', w)
      | Some admin \<Rightarrow>
          (case testDriveBooking_findUnique (testDriveBookings w) bookingId of
             None \<Rightarrow> (Inl ''Booking not found'', w)
           | Some booking \<Rightarrow>
               if newStatus \<notin> set validStatuses then (Inl ''Invalid status'', w)
               else (Inr ''Status updated'',
                     w\<lparr> testDriveBookings :=
                          testDriveBooking_update (testDriveBookings w) bookingId newStatus,
                        revalidated :=
                          revalidated w @ [''/admin/test-drives'', ''/reservations''] \<rparr>)))"

text \<open>\<^verbatim>\<open>updateTestDriveStatus\<close> of \<^verbatim>\<open>src/unnamed/part_000\<close>.\<close>

definition updateTestDriveStatus_part000 :: "World \<Rightarrow> string option \<Rightarrow> string \<Rightarrow> string \<Rightarrow> string envelope \<times> World" where
  "updateTestDriveStatus_part000 w userId bookingId newStatus =
     (case requireAdmin w userId of
        Inl msg \<Rightarrow> (Inl msg, w)
      | Inr admin \<Rightarrow>
          (case testDriveBooking_findUnique (testDriveBookings w) bookingId of
             None \<Rightarrow> (Inl ''Booking not found'', w)
           | Some booking \<Rightarrow>
               if newStatus \<notin> set validStatuses then (Inl ''Invalid status'', w)
               else (Inr ''Test drive status updated successfully'',
                     w\<lparr> testDriveBookings :=
                          testDriveBooking_update (testDriveBookings w) bookingId newStatus,
                        revalidated :=
                          revalidated w @ [''/admin/test-drives'', ''/reservations''] \<rparr>)))"

text \<open>
  Modelled from the spec: \<^verbatim>\<open>serializeCarData\<close> of \<^verbatim>\<open>@/lib/helpers\<close> is not among
  the sources. By section 4.4 of the specification it returns the car record together
  with the boolean flag it was called with; \<open>None\<close> is a call without the flag.
\<close>

record SerializedCar =
  sz_car :: Car
  sz_wishlisted :: "bool option"

definition serializeCarData :: "Car \<Rightarrow> bool option \<Rightarrow> SerializedCar" where
  "serializeCarData car flag = \<lparr> sz_car = car, sz_wishlisted = flag \<rparr>"

record UserProjection =
  up_id :: string
  up_name :: string
  up_email :: string
  up_imageUrl :: string
  up_phone :: string

record AdminTestDrive =
  at_id :: string
  at_carId :: string
  at_car :: "SerializedCar option"
  at_userId :: string
  at_user :: "UserProjection option"
  at_bookingDate :: nat
  at_startTime :: string
  at_endTime :: string
  at_status :: string
  at_notes :: string
  at_createdAt :: nat
  at_updatedAt :: nat

text \<open>
  The clauses of the \<^verbatim>\<open>where\<close> object of \<^verbatim>\<open>getAdminTestDrives\<close>; the object is their
  conjunction (\<^verbatim>\<open>where.status\<close> and \<^verbatim>\<open>where.OR\<close> in \<^verbatim>\<open>admin.js\<close>, the list
  \<^verbatim>\<open>where.AND\<close> in \<^verbatim>\<open>part_000\<close>).
\<close>

datatype BookingClause = StatusIs string | SearchAny string

definition user_findById :: "User list \<Rightarrow> string \<Rightarrow> User option" where
  "user_findById us uid = find (\<lambda>u. user_id u = uid) us"

fun clauseHolds :: "Store \<Rightarrow> World \<Rightarrow> BookingClause \<Rightarrow> TestDriveBooking \<Rightarrow> bool" where
  "clauseHolds st w (StatusIs s) b = (b_status b = s)"
| "clauseHolds st w (SearchAny t) b =
     ((case car_findUnique (cars w) (b_carId b) of
         None \<Rightarrow> False
       | Some c \<Rightarrow> st_contains st (car_make c) t \<or> st_contains st (car_model c) t)
      \<or>
      (case user_findById (users w) (b_userId b) of
         None \<Rightarrow> False
       | Some u \<Rightarrow> st_contains st (user_name u) t \<or> st_contains st (user_email u) t))"

definition bookingWhere :: "string \<Rightarrow> string \<Rightarrow> BookingClause list" where
  "bookingWhere search status =
     (if status \<noteq> [] then [StatusIs status] else []) @
     (if search \<noteq> [] then [SearchAny search] else [])"

text \<open>\<^verbatim>\<open>orderBy: [{ bookingDate: "desc" }, { startTime: "asc" }]\<close>, by two stable sorts.\<close>

definition orderBookings :: "TestDriveBooking list \<Rightarrow> TestDriveBooking list" where
  "orderBookings bs = sort_key (\<lambda>b. - int (b_bookingDate b)) (sort_key b_startTime bs)"

definition formatBooking :: "World \<Rightarrow> TestDriveBooking \<Rightarrow> AdminTestDrive" where
  "formatBooking w b =
     \<lparr> at_id = b_id b,
       at_carId = b_carId b,
       at_car = map_option (\<lambda>c. serializeCarData c None) (car_findUnique (cars w) (b_carId b)),
       at_userId = b_userId b,
       at_user =
         map_option
           (\<lambda>u. \<lparr> up_id = user_id u, up_name = user_name u, up_email = user_email u,
                  up_imageUrl = user_imageUrl u, up_phone = user_phone u \<rparr>)
           (user_findById (users w) (b_userId b)),
       at_bookingDate = b_bookingDate b,
       at_startTime = b_startTime b,
       at_endTime = b_endTime b,
       at_status = b_status b,
       at_notes = b_notes b,
       at_createdAt = b_createdAt b,
       at_updatedAt = b_updatedAt b \<rparr>"

definition findTestDrives :: "Store \<Rightarrow> World \<Rightarrow> string \<Rightarrow> string \<Rightarrow> AdminTestDrive list" where
  "findTestDrives st w search status =
     map (formatBooking w)
       (orderBookings
          (filter (\<lambda>b. list_all (\<lambda>cl. clauseHolds st w cl b) (bookingWhere search status))
             (testDriveBookings w)))"

text \<open>\<^verbatim>\<open>getAdminTestDrives\<close> of \<^verbatim>\<open>src/actions/admin.js\<close>.\<close>

definition getAdminTestDrives :: "Store \<Rightarrow> World \<Rightarrow> string option \<Rightarrow> string \<Rightarrow> string \<Rightarrow> AdminTestDrive list envelope" where
  "getAdminTestDrives st w userId search status =
     (case getDbAdmin w userId of
        None \<Rightarrow> Inl ''Unauthorized''
      | Some admin \<Rightarrow> Inr (findTestDrives st w search status))"

text \<open>\<^verbatim>\<open>getAdminTestDrives\<close> of \<^verbatim>\<open>src/unnamed/part_000\<close>.\<close>

definition getAdminTestDrives_part000 :: "Store \<Rightarrow> World \<Rightarrow> string option \<Rightarrow> string \<Rightarrow> string \<Rightarrow> AdminTestDrive list envelope" where
  "getAdminTestDrives_part000 st w userId search status =
     (case requireAdmin w userId of
        Inl msg \<Rightarrow> Inl msg
      | Inr admin \<Rightarrow> Inr (findTestDrives st w search status))"

section \<open>Marketplace filters\<close>

record PriceRange =
  pr_min :: rat
  pr_max :: rat

record CarFilters =
  cf_makes :: "string list"
  cf_bodyTypes :: "string list"
  cf_fuelTypes :: "string list"
  cf_transmissions :: "string list"
  cf_priceRange :: PriceRange

text \<open>
  \<^verbatim>\<open>db.car.findMany({ where: { status: "AVAILABLE" }, select: { f: true }, distinct: ["f"], orderBy: { f: "asc" } })\<close>
\<close>

definition distinctValues :: "(Car \<Rightarrow> string) \<Rightarrow> Car list \<Rightarrow> string list" where
  "distinctValues field cs =
     sort (remdups (map field (filter (\<lambda>c. car_status c = AVAILABLE) cs)))"

text \<open>The aggregates \<^verbatim>\<open>_min\<close> and \<^verbatim>\<open>_max\<close>: \<open>None\<close> (\<^verbatim>\<open>null\<close>) over no row.\<close>

definition aggregateMin :: "rat list \<Rightarrow> rat option" where
  "aggregateMin ps = (case ps of [] \<Rightarrow> None | p # qs \<Rightarrow> Some (fold min qs p))"

definition aggregateMax :: "rat list \<Rightarrow> rat option" where
  "aggregateMax ps = (case ps of [] \<Rightarrow> None | p # qs \<Rightarrow> Some (fold max qs p))"

text \<open>
  \<^verbatim>\<open>getCarFilters\<close> of \<^verbatim>\<open>src/unnamed/part_001\<close>. A price of the store is an
  exact decimal; \<^verbatim>\<open>parseFloat(price.toString())\<close> is the binary64 value nearest to
  it. The decimal object is truthy whatever its value, \<^verbatim>\<open>null\<close> is not.
\<close>

definition getCarFilters :: "JsBuiltins \<Rightarrow> World \<Rightarrow> CarFilters envelope" where
  "getCarFilters rt w =
     (let makes = distinctValues car_make (cars w);
          bodyTypes = distinctValues car_bodyType (cars w);
          fuelTypes = distinctValues car_fuelType (cars w);
          transmissions = distinctValues car_transmission (cars w);
          prices = map car_price (filter (\<lambda>c. car_status c = AVAILABLE) (cars w))
      in Inr \<lparr> cf_makes = map (toLowerCaseStr rt) makes,
               cf_bodyTypes = map (toLowerCaseStr rt) bodyTypes,
               cf_fuelTypes = map (toLowerCaseStr rt) fuelTypes,
               cf_transmissions = map (toLowerCaseStr rt) transmissions,
               cf_priceRange =
                 \<lparr> pr_min = (case aggregateMin prices of Some p \<Rightarrow> roundDouble p | None \<Rightarrow> 0),
                   pr_max = (case aggregateMax prices of Some p \<Rightarrow> roundDouble p | None \<Rightarrow> 100000) \<rparr> \<rparr>)"

section \<open>Marketplace listing\<close>

text \<open>
  The parameters of \<^verbatim>\<open>getCars\<close> after destructuring: an absent parameter has its
  default, given by \<open>defaultQuery\<close>.
\<close>

record CarQuery =
  q_search :: string
  q_make :: string
  q_bodyType :: string
  q_fuelType :: string
  q_transmission :: string
  q_minPrice :: jsval
  q_maxPrice :: jsval
  q_sortBy :: string
  q_page :: int
  q_limit :: int

definition defaultQuery :: CarQuery where
  "defaultQuery =
     \<lparr> q_search = [], q_make = [], q_bodyType = [], q_fuelType = [],
       q_transmission = [],
       q_minPrice = JNumber (Num 0),
       q_maxPrice = JNumber (Num MAX_SAFE_INTEGER),
       q_sortBy = ''newest'', q_page = 1, q_limit = 6 \<rparr>"

definition carWhere :: "JsBuiltins \<Rightarrow> CarQuery \<Rightarrow> CarWhere" where
  "carWhere rt q =
     \<lparr> wh_status = AVAILABLE,
       wh_OR = (if q_search q \<noteq> [] then Some (q_search q) else None),
       wh_make = (if q_make q \<noteq> [] then Some (q_make q) else None),
       wh_bodyType = (if q_bodyType q \<noteq> [] then Some (q_bodyType q) else None),
       wh_fuelType = (if q_fuelType q \<noteq> [] then Some (q_fuelType q) else None),
       wh_transmission = (if q_transmission q \<noteq> [] then Some (q_transmission q) else None),
       wh_price_gte = parseFloatOrZero rt (q_minPrice q),
       wh_price_lte =
         (if truthy (q_maxPrice q) \<and> lessThanNumber rt (q_maxPrice q) MAX_SAFE_INTEGER
          then Some (parseFloat rt (q_maxPrice q)) else None) \<rparr>"

text \<open>
  The rows the store selects for a \<^verbatim>\<open>where\<close> object: the conjunction of its clauses.
  A price bound that is not finite selects nothing here; the store refuses such a query
  (see \<open>getCars\<close>).
\<close>

definition carMatches :: "Store \<Rightarrow> CarWhere \<Rightarrow> Car \<Rightarrow> bool" where
  "carMatches st wh c =
     (car_status c = wh_status wh \<and>
      (case wh_OR wh of
         None \<Rightarrow> True
       | Some t \<Rightarrow> st_contains st (car_make c) t \<or> st_contains st (car_model c) t \<or>
                   st_contains st (car_description c) t) \<and>
      (case wh_make wh of None \<Rightarrow> True | Some t \<Rightarrow> st_equals st (car_make c) t) \<and>
      (case wh_bodyType wh of None \<Rightarrow> True | Some t \<Rightarrow> st_equals st (car_bodyType c) t) \<and>
      (case wh_fuelType wh of None \<Rightarrow> True | Some t \<Rightarrow> st_equals st (car_fuelType c) t) \<and>
      (case wh_transmission wh of
         None \<Rightarrow> True
       | Some t \<Rightarrow> st_equals st (car_transmission c) t) \<and>
      (case wh_price_gte wh of Num lo \<Rightarrow> lo \<le> car_price c | _ \<Rightarrow> False) \<and>
      (case wh_price_lte wh of
         None \<Rightarrow> True
       | Some (Num hi) \<Rightarrow> car_price c \<le> hi
       | Some _ \<Rightarrow> False))"

datatype CarOrder = PriceAsc | PriceDesc | CreatedAtDesc

definition carOrderBy :: "string \<Rightarrow> CarOrder" where
  "carOrderBy sortBy =
     (if sortBy = ''priceAsc'' then PriceAsc
      else if sortBy = ''priceDesc'' then PriceDesc
      else CreatedAtDesc)"

definition orderCars :: "CarOrder \<Rightarrow> Car list \<Rightarrow> Car list" where
  "orderCars ord cs =
     (case ord of
        PriceAsc \<Rightarrow> sort_key car_price cs
      | PriceDesc \<Rightarrow> sort_key (\<lambda>c. - car_price c) cs
      | CreatedAtDesc \<Rightarrow> sort_key (\<lambda>c. - int (car_createdAt c)) cs)"

text \<open>
  \<^verbatim>\<open>take\<close> and \<^verbatim>\<open>skip\<close> of \<^verbatim>\<open>findMany\<close>: the store refuses (\<open>None\<close>) a
  negative \<^verbatim>\<open>skip\<close> and a \<^verbatim>\<open>skip\<close> or \<^verbatim>\<open>take\<close> that is no signed 64-bit
  integer; a negative \<^verbatim>\<open>take\<close> counts from the end of the list.
\<close>

definition INT64_MAX :: int where
  "INT64_MAX = 9223372036854775807"

definition window :: "int \<Rightarrow> int \<Rightarrow> 'a list \<Rightarrow> 'a list option" where
  "window tk sk xs =
     (if sk < 0 \<or> INT64_MAX < sk \<or> tk < - INT64_MAX - 1 \<or> INT64_MAX < tk then None
      else if 0 \<le> tk then Some (take (nat tk) (drop (nat sk) xs))
      else Some (rev (take (nat (- tk)) (drop (nat sk) (rev xs)))))"

text \<open>
  \<^verbatim>\<open>(page - 1) * limit\<close>: \<^verbatim>\<open>page\<close> and \<^verbatim>\<open>limit\<close> are integers held in
  binary64 numbers, and the subtraction and the product each round to binary64. The result
  is an integer again.
\<close>

definition skipOf :: "int \<Rightarrow> int \<Rightarrow> int" where
  "skipOf page limit = \<lfloor>roundDouble (roundDouble (of_int page - 1) * of_int limit)\<rfloor>"

text \<open>The price bounds of a \<^verbatim>\<open>where\<close> object are values of the price column.\<close>

definition priceBoundsFinite :: "CarWhere \<Rightarrow> bool" where
  "priceBoundsFinite wh =
     (isFinite (wh_price_gte wh) \<and>
      (case wh_price_lte wh of None \<Rightarrow> True | Some b \<Rightarrow> isFinite b))"

record Pagination =
  pg_total :: nat
  pg_page :: int
  pg_limit :: int
  pg_pages :: int

record CarsPage =
  cp_data :: "SerializedCar list"
  cp_pagination :: Pagination

text \<open>\<^verbatim>\<open>db.userSavedCar.findMany({ where: { userId }, select: { carId: true } })\<close>\<close>

definition savedCarIds :: "UserSavedCar list \<Rightarrow> string \<Rightarrow> string list" where
  "savedCarIds ss uid = map sc_carId (filter (\<lambda>s. sc_userId s = uid) ss)"

text \<open>
  \<^verbatim>\<open>getCars\<close> of \<^verbatim>\<open>src/unnamed/part_001\<close>. An exception of the store is caught and
  answered with the failure envelope. The store raises on a price bound that is
  \<^verbatim>\<open>NaN\<close> or infinite (no value of the price column), on a \<^verbatim>\<open>skip\<close> or
  \<^verbatim>\<open>take\<close> it does not accept (\<open>window\<close>), and on whatever else it refuses
  (\<open>st_refuses\<close>: a text filter holding a NUL character, for one).
  \<^verbatim>\<open>Math.ceil(totalCars / limit)\<close> is the exact ceiling: the
  binary64 quotient of a count below \<open>2 ^ 53\<close> never rounds across an integer.
\<close>

definition getCars :: "JsBuiltins \<Rightarrow> Store \<Rightarrow> World \<Rightarrow> string option \<Rightarrow> CarQuery \<Rightarrow> CarsPage envelope" where
  "getCars rt st w userId q =
     (let dbUser = getDbUser w userId;
          wh = carWhere rt q;
          skip = skipOf (q_page q) (q_limit q);
          orderBy = carOrderBy (q_sortBy q)
      in if \<not> priceBoundsFinite wh \<or> st_refuses st wh (q_limit q) skip
         then Inl ''Failed to fetch cars''
         else
           (let totalCars = length (filter (carMatches st wh) (cars w))
            in case window (q_limit q) skip
                      (orderCars orderBy (filter (carMatches st wh) (cars w))) of
                 None \<Rightarrow> Inl ''Failed to fetch cars''
               | Some found \<Rightarrow>
                   (let wishlisted =
                          (case dbUser of
                             None \<Rightarrow> {}
                           | Some u \<Rightarrow> set (savedCarIds (userSavedCars w) (user_id u)))
                    in Inr \<lparr> cp_data =
                               map (\<lambda>car. serializeCarData car (Some (car_id car \<in> wishlisted)))
                                 found,
                             cp_pagination =
                               \<lparr> pg_total = totalCars,
                                 pg_page = q_page q,
                                 pg_limit = q_limit q,
                                 pg_pages =
                                   (if q_limit q > 0
                                    then \<lceil>(of_nat totalCars :: rat) / of_int (q_limit q)\<rceil>
                                    else 0) \<rparr> \<rparr>)))"

section \<open>Wishlist and car details\<close>

definition userSavedCar_findUnique :: "UserSavedCar list \<Rightarrow> string \<Rightarrow> string \<Rightarrow> UserSavedCar option" where
  "userSavedCar_findUnique ss uid carId = find (\<lambda>s. sc_userId s = uid \<and> sc_carId s = carId) ss"

text \<open>\<^verbatim>\<open>db.userSavedCar.delete\<close> removes the rows with the key \<^verbatim>\<open>userId_carId\<close>.\<close>

definition userSavedCar_delete :: "UserSavedCar list \<Rightarrow> string \<Rightarrow> string \<Rightarrow> UserSavedCar list" where
  "userSavedCar_delete ss uid carId = filter (\<lambda>s. \<not> (sc_userId s = uid \<and> sc_carId s = carId)) ss"

definition userSavedCar_create :: "UserSavedCar list \<Rightarrow> string \<Rightarrow> string \<Rightarrow> UserSavedCar list" where
  "userSavedCar_create ss uid carId = ss @ [\<lparr> sc_userId = uid, sc_carId = carId \<rparr>]"

text \<open>
  \<^verbatim>\<open>toggleSavedCar\<close> of \<^verbatim>\<open>src/unnamed/part_001\<close>: the envelope (its data is the
  \<^verbatim>\<open>saved\<close> flag) and the state after the call.
\<close>

definition toggleSavedCar :: "World \<Rightarrow> string option \<Rightarrow> string \<Rightarrow> bool envelope \<times> World" where
  "toggleSavedCar w userId carId =
     (case getDbUser w userId of
        None \<Rightarrow> (Inl ''Unauthorized'', w)
      | Some dbUser \<Rightarrow>
          (case car_findUnique (cars w) carId of
             None \<Rightarrow> (Inl ''Car not found'', w)
           | Some car \<Rightarrow>
               (case userSavedCar_findUnique (userSavedCars w) (user_id dbUser) carId of
                  Some existingSave \<Rightarrow>
                    (Inr False,
                     w\<lparr> userSavedCars :=
                          userSavedCar_delete (userSavedCars w) (user_id dbUser) carId,
                        revalidated := revalidated w @ [''/saved-cars'', ''/car/'' @ carId] \<rparr>)
                | None \<Rightarrow>
                    (Inr True,
                     w\<lparr> userSavedCars :=
                          userSavedCar_create (userSavedCars w) (user_id dbUser) carId,
                        revalidated := revalidated w @ [''/saved-cars'', ''/car/'' @ carId] \<rparr>))))"

record UserTestDrive =
  ut_id :: string
  ut_status :: string
  ut_bookingDate :: nat

record CarDetail =
  cd_car :: SerializedCar
  cd_userTestDrive :: "UserTestDrive option"
  cd_dealership :: "DealershipInfo option"

text \<open>
  \<^verbatim>\<open>db.testDriveBooking.findFirst\<close> of \<^verbatim>\<open>getCarById\<close>: the newest booking of the
  user for the car whose status is PENDING, CONFIRMED or COMPLETED.
\<close>

definition existingTestDrive :: "TestDriveBooking list \<Rightarrow> string \<Rightarrow> string \<Rightarrow> TestDriveBooking option" where
  "existingTestDrive bs carId uid =
     (case sort_key (\<lambda>b. - int (b_createdAt b))
             (filter (\<lambda>b. b_carId b = carId \<and> b_userId b = uid \<and>
                           b_status b \<in> set [''PENDING'', ''CONFIRMED'', ''COMPLETED'']) bs) of
        [] \<Rightarrow> None
      | b # _ \<Rightarrow> Some b)"

text \<open>\<^verbatim>\<open>getCarById\<close> of \<^verbatim>\<open>src/unnamed/part_001\<close>.\<close>

definition getCarById :: "World \<Rightarrow> string option \<Rightarrow> string \<Rightarrow> CarDetail envelope" where
  "getCarById w userId carId =
     (let dbUser = getDbUser w userId
      in case car_findUnique (cars w) carId of
           None \<Rightarrow> Inl ''Car not found''
         | Some car \<Rightarrow>
             (let isWishlisted =
                    (case dbUser of
                       None \<Rightarrow> False
                     | Some u \<Rightarrow> userSavedCar_findUnique (userSavedCars w) (user_id u) carId \<noteq> None);
                  userTestDrive =
                    (case dbUser of
                       None \<Rightarrow> None
                     | Some u \<Rightarrow>
                         map_option
                           (\<lambda>b. \<lparr> ut_id = b_id b, ut_status = b_status b,
                                  ut_bookingDate = b_bookingDate b \<rparr>)
                           (existingTestDrive (testDriveBookings w) carId (user_id u)));
                  dealership = (case dealershipInfo w of [] \<Rightarrow> None | d # _ \<Rightarrow> Some d)
              in Inr \<lparr> cd_car = serializeCarData car (Some isWishlisted),
                       cd_userTestDrive = userTestDrive,
                       cd_dealership = dealership \<rparr>))"

section \<open>Reference definitions\<close>

text \<open>
  In the words of the specification: the SOLD cars whose id appears among the cars
  linked to a COMPLETED booking, each counted once (as the set of their ids).
\<close>

definition spec_soldCarsWithCompletedBooking :: "Car list \<Rightarrow> TestDriveBooking list \<Rightarrow> string set" where
  "spec_soldCarsWithCompletedBooking cs testDrives =
     car_id ` {c \<in> set cs. car_status c = SOLD \<and>
                 (\<exists>td \<in> set testDrives. b_status td = ''COMPLETED'' \<and> b_carId td = car_id c)}"

text \<open>
  Whether the pair (user, car) is in the wishlist, and the number of
  \<^verbatim>\<open>SavedCar\<close> rows for the pair.
\<close>

definition isSaved :: "World \<Rightarrow> string \<Rightarrow> string \<Rightarrow> bool" where
  "isSaved w uid carId = (\<exists>s \<in> set (userSavedCars w). sc_userId s = uid \<and> sc_carId s = carId)"

definition savedRows :: "World \<Rightarrow> string \<Rightarrow> string \<Rightarrow> nat" where
  "savedRows w uid carId =
     length (filter (\<lambda>s. sc_userId s = uid \<and> sc_carId s = carId) (userSavedCars w))"

text \<open>
  The caller is an administrator when the credential resolves to a user record with
  role ADMIN; an anonymous caller has no credential. \<open>deniedMessage\<close> is the message
  of the error \<^verbatim>\<open>requireAdmin\<close> throws for a caller who is not an administrator.
\<close>

definition callerIsAdmin :: "World \<Rightarrow> string option \<Rightarrow> bool" where
  "callerIsAdmin w userId =
     (case userId of
        None \<Rightarrow> False
      | Some uid \<Rightarrow>
          uid \<noteq> [] \<and>
          (case user_findUnique (users w) uid of
             None \<Rightarrow> False
           | Some user \<Rightarrow> user_role user = ADMIN))"

definition deniedMessage :: "string option \<Rightarrow> string" where
  "deniedMessage userId =
     (if userId = None \<or> userId = Some [] then ''Unauthorized'' else ''Unauthorized access'')"

text \<open>
  The set \<^verbatim>\<open>wishlisted\<close> of \<^verbatim>\<open>getCars\<close>; the full predicate-matching sorted
  sequence of a query, of which \<^verbatim>\<open>findMany\<close> returns a window; and the AVAILABLE
  cars of a state.
\<close>

definition wishlistOf :: "World \<Rightarrow> string option \<Rightarrow> string set" where
  "wishlistOf w userId =
     (case getDbUser w userId of
        None \<Rightarrow> {}
      | Some u \<Rightarrow> set (savedCarIds (userSavedCars w) (user_id u)))"

definition matchingSorted :: "JsBuiltins \<Rightarrow> Store \<Rightarrow> World \<Rightarrow> CarQuery \<Rightarrow> Car list" where
  "matchingSorted rt st w q =
     orderCars (carOrderBy (q_sortBy q)) (filter (carMatches st (carWhere rt q)) (cars w))"

definition availableCars :: "World \<Rightarrow> Car set" where
  "availableCars w = set (filter (\<lambda>c. car_status c = AVAILABLE) (cars w))"

text \<open>
  The store answers the two queries of \<^verbatim>\<open>getCars\<close>: the price bounds are finite,
  \<^verbatim>\<open>skip\<close> is not negative, \<^verbatim>\<open>skip\<close> and \<^verbatim>\<open>take\<close> are signed 64-bit
  integers, and the store refuses the query for no other reason.
\<close>

definition storeAccepts :: "JsBuiltins \<Rightarrow> Store \<Rightarrow> CarQuery \<Rightarrow> bool" where
  "storeAccepts rt st q =
     (priceBoundsFinite (carWhere rt q) \<and>
      \<not> st_refuses st (carWhere rt q) (q_limit q) (skipOf (q_page q) (q_limit q)) \<and>
      0 \<le> skipOf (q_page q) (q_limit q) \<and> skipOf (q_page q) (q_limit q) \<le> INT64_MAX \<and>
      - INT64_MAX - 1 \<le> q_limit q \<and> q_limit q \<le> INT64_MAX)"

section \<open>Example states\<close>

text \<open>Concrete rows, states and queries, on which the handlers are evaluated below.\<close>

definition adminUser :: User where
  "adminUser = \<lparr> user_id = ''u1'', user_clerkUserId = ''clerk_admin'', user_role = ADMIN,
     user_name = ''Ada'', user_email = ''ada@example.com'', user_imageUrl = [], user_phone = [] \<rparr>"

definition plainUser :: User where
  "plainUser = \<lparr> user_id = ''u2'', user_clerkUserId = ''clerk_user'', user_role = USER,
     user_name = ''Bob'', user_email = ''bob@example.com'', user_imageUrl = [], user_phone = [] \<rparr>"

definition mkCar :: "string \<Rightarrow> string \<Rightarrow> rat \<Rightarrow> CarStatus \<Rightarrow> nat \<Rightarrow> Car" where
  "mkCar i mk p s t = \<lparr> car_id = i, car_make = mk, car_model = ''X'', car_description = ''A car'',
     car_bodyType = ''SUV'', car_fuelType = ''Petrol'', car_transmission = ''Manual'',
     car_price = p, car_status = s, car_featured = False, car_createdAt = t \<rparr>"

definition mkBooking :: "string \<Rightarrow> string \<Rightarrow> string \<Rightarrow> string \<Rightarrow> TestDriveBooking" where
  "mkBooking i c u s = \<lparr> b_id = i, b_carId = c, b_userId = u, b_bookingDate = 1,
     b_startTime = ''10:00'', b_endTime = ''11:00'', b_status = s, b_notes = [],
     b_createdAt = 1, b_updatedAt = 1 \<rparr>"

definition worldTwoCompleted :: World where
  "worldTwoCompleted = \<lparr> users = [adminUser, plainUser],
     cars = [mkCar ''c1'' ''Toyota'' 20000 SOLD 1],
     testDriveBookings = [mkBooking ''b1'' ''c1'' ''u2'' ''COMPLETED'', mkBooking ''b2'' ''c1'' ''u2'' ''COMPLETED''],
     userSavedCars = [], dealershipInfo = [], revalidated = [] \<rparr>"

definition worldNoCompleted :: World where
  "worldNoCompleted = \<lparr> users = [adminUser, plainUser],
     cars = [mkCar ''c1'' ''Toyota'' 20000 SOLD 1],
     testDriveBookings = [mkBooking ''b1'' ''c1'' ''u2'' ''PENDING'', mkBooking ''b2'' ''c1'' ''u2'' ''CANCELLED''],
     userSavedCars = [], dealershipInfo = [], revalidated = [] \<rparr>"

definition worldBookings :: World where
  "worldBookings = \<lparr> users = [adminUser, plainUser],
     cars = [mkCar ''c1'' ''Toyota'' 20000 AVAILABLE 1],
     testDriveBookings = [mkBooking ''b1'' ''c1'' ''u2'' ''COMPLETED'', mkBooking ''b2'' ''c1'' ''u2'' ''PENDING''],
     userSavedCars = [], dealershipInfo = [], revalidated = [] \<rparr>"

definition worldWishlist :: World where
  "worldWishlist = \<lparr> users = [adminUser, plainUser],
     cars = [mkCar ''c1'' ''Toyota'' 20000 AVAILABLE 1, mkCar ''c2'' ''Honda'' 15000 AVAILABLE 2],
     testDriveBookings = [],
     userSavedCars = [\<lparr> sc_userId = ''u2'', sc_carId = ''c2'' \<rparr>],
     dealershipInfo = [], revalidated = [] \<rparr>"

definition worldMarket :: World where
  "worldMarket = \<lparr> users = [adminUser, plainUser],
     cars = [mkCar ''c1'' ''Toyota'' 20000 AVAILABLE 1,
             mkCar ''c2'' ''Honda'' 15000 AVAILABLE 2,
             mkCar ''c3'' ''Ford'' 5000 SOLD 3,
             mkCar ''c4'' ''Audi'' 40000 UNAVAILABLE 4,
             mkCar ''c5'' ''toyota'' 30000 AVAILABLE 5],
     testDriveBookings = [mkBooking ''b1'' ''c2'' ''u2'' ''CONFIRMED''],
     userSavedCars = [\<lparr> sc_userId = ''u2'', sc_carId = ''c2'' \<rparr>],
     dealershipInfo = [], revalidated = [] \<rparr>"

definition worldShowroom :: World where
  "worldShowroom = \<lparr> users = [adminUser, plainUser],
     cars = [mkCar ''c1'' ''Toyota'' 20000 AVAILABLE 1,
             mkCar ''c2'' ''Honda'' 15000 AVAILABLE 2,
             mkCar ''c3'' ''Ford'' 5000 AVAILABLE 3,
             mkCar ''c4'' ''Audi'' 40000 AVAILABLE 4,
             mkCar ''c5'' ''Kia'' 30000 AVAILABLE 5,
             mkCar ''c6'' ''Mazda'' 25000 AVAILABLE 6,
             mkCar ''c7'' ''Volvo'' 35000 AVAILABLE 7,
             mkCar ''c8'' ''Fiat'' 10000 AVAILABLE 8,
             mkCar ''c9'' ''Saab'' 9000 SOLD 9],
     testDriveBookings = [], userSavedCars = [], dealershipInfo = [], revalidated = [] \<rparr>"

text \<open>
  The built-ins on the strings of the examples: the digits \<^verbatim>\<open>30000\<close> are the number
  30000 and \<^verbatim>\<open>abc\<close> is \<^verbatim>\<open>NaN\<close>, for both \<^verbatim>\<open>parseFloat\<close> and
  \<^verbatim>\<open>Number\<close>; a string of two blanks is \<^verbatim>\<open>NaN\<close> for \<^verbatim>\<open>parseFloat\<close> and 0
  for \<^verbatim>\<open>Number\<close>. \<^verbatim>\<open>toLowerCase\<close> is given on the capitalised words of the
  example rows; the other strings below have no upper-case letter.
\<close>

definition exampleBuiltins :: JsBuiltins where
  "exampleBuiltins =
     \<lparr> parseFloatStr = (\<lambda>s. if s = ''30000'' then Num 30000 else NaN),
       toNumberStr =
         (\<lambda>s. if s = ''30000'' then Num 30000 else if s = ''  '' then Num 0 else NaN),
       toLowerCaseStr =
         (\<lambda>s. if s = ''Toyota'' then ''toyota''
              else if s = ''Honda'' then ''honda''
              else if s = ''Ford'' then ''ford''
              else if s = ''Audi'' then ''audi''
              else if s = ''SUV'' then ''suv''
              else if s = ''Petrol'' then ''petrol''
              else if s = ''Manual'' then ''manual''
              else s) \<rparr>"

text \<open>
  A store for the examples: none of their queries carries a text filter, and the store
  refuses none of them beyond what the model names.
\<close>

definition exampleStore :: Store where
  "exampleStore =
     \<lparr> st_contains = (\<lambda>field t. field = t),
       st_equals = (\<lambda>field t. field = t),
       st_refuses = (\<lambda>wh tk sk. False) \<rparr>"

definition boundedQuery :: CarQuery where
  "boundedQuery = defaultQuery\<lparr>q_minPrice := JNumber (Num 16000), q_maxPrice := JNumber (Num 30000)\<rparr>"

definition zeroMaxQuery :: CarQuery where
  "zeroMaxQuery = defaultQuery\<lparr>q_minPrice := JNumber (Num 0), q_maxPrice := JNumber (Num 0)\<rparr>"

definition stringQuery :: CarQuery where
  "stringQuery = defaultQuery\<lparr>q_minPrice := JString ''abc'', q_maxPrice := JString ''30000'',
     q_sortBy := ''priceAsc''\<rparr>"

definition pageTwoQuery :: CarQuery where
  "pageTwoQuery = defaultQuery\<lparr>q_page := 2\<rparr>"

definition farPageQuery :: CarQuery where
  "farPageQuery = defaultQuery\<lparr>q_page := 7\<rparr>"

definition zeroLimitQuery :: CarQuery where
  "zeroLimitQuery = defaultQuery\<lparr>q_limit := 0\<rparr>"

definition blankMaxQuery :: CarQuery where
  "blankMaxQuery = defaultQuery\<lparr>q_maxPrice := JString ''  ''\<rparr>"

definition hugePageQuery :: CarQuery where
  "hugePageQuery = defaultQuery\<lparr>q_page := 10000000000000000000\<rparr>"

section \<open>Properties of the admin gate\<close>

lemma getDbAdmin_requireAdmin: "getDbAdmin w userId = Some u \<longleftrightarrow> requireAdmin w userId = Inr u"
  by (auto simp: getDbAdmin_def requireAdmin_def split: option.splits if_splits)

section \<open>Properties of the dashboard\<close>

lemma soldAfterTestDrive_eq: "soldAfterTestDrive cs tds = soldAfterTD cs tds"
  by (simp add: soldAfterTestDrive_def soldAfterTD_def completedCarIdSet_def completedCarIds_def)

lemma soldAfterTD_card:
  assumes "distinct (map car_id cs)"
  shows "soldAfterTD cs tds = card (spec_soldCarsWithCompletedBooking cs tds)"
proof -
  let ?P = "\<lambda>c. car_status c = SOLD \<and> car_id c \<in> set (completedCarIds tds)"
  have inj: "inj_on car_id (set cs)" and d: "distinct cs"
    using assms by (auto simp: distinct_map)
  have "soldAfterTD cs tds = length (filter ?P cs)" by (simp add: soldAfterTD_def)
  also have "\<dots> = card (set (filter ?P cs))"
    using distinct_card [of "filter ?P cs"] d by simp
  also have "\<dots> = card (car_id ` set (filter ?P cs))"
    by (rule card_image [symmetric]) (rule inj_on_subset [OF inj], auto)
  also have "car_id ` set (filter ?P cs) = spec_soldCarsWithCompletedBooking cs tds"
  proof -
    have mem: "i \<in> set (completedCarIds tds) \<longleftrightarrow>
                 (\<exists>td \<in> set tds. b_status td = ''COMPLETED'' \<and> b_carId td = i)" for i
      by (auto simp: completedCarIds_def)
    show ?thesis
      by (simp add: spec_soldCarsWithCompletedBooking_def mem)
  qed
  finally show ?thesis .
qed

lemma getDashboardData_rate:
  "getDbAdmin w userId = Some u \<Longrightarrow>
   map_sum id (\<lambda>d. td_conversionRate (dd_testDrives d)) (getDashboardData w userId) =
     Inr (toFixed2 (conversionRate (soldAfterTD (cars w) (testDriveBookings w)) (countStatus ''COMPLETED'' (testDriveBookings w))))"
  by (simp add: getDashboardData_def Let_def)

lemma getDashboardData_part000_rate:
  "getDbAdmin w userId = Some u \<Longrightarrow>
   map_sum id (\<lambda>d. td_conversionRate (dd_testDrives d)) (getDashboardData_part000 w userId) =
     Inr (toFixed2 (conversionRate (soldAfterTD (cars w) (testDriveBookings w)) (countStatus ''COMPLETED'' (testDriveBookings w))))"
  by (simp add: getDashboardData_part000_def Let_def getDbAdmin_requireAdmin soldAfterTestDrive_eq)

lemma toFixed2_0: "toFixed2 0 = 0"
  by (simp add: toFixed2_def roundDouble_def)

lemma conversionRate_0: "conversionRate n 0 = 0"
  by (simp add: conversionRate_def)

lemma rate_1_2: "toFixed2 (conversionRate 1 2) = 50"
  by code_simp

text \<open>
  C1: for an administrator, the conversion rate of \<^verbatim>\<open>getDashboardData\<close> (both
  variants) is computed (\<open>conversionRate\<close>, then \<open>toFixed2\<close>) from the number of distinct
  SOLD cars with at least one COMPLETED booking (each counted once, however many completed
  bookings it has) and the number of COMPLETED bookings (each booking counted), car ids
  being unique in the store; for one SOLD car linked to two COMPLETED bookings it is 50.
  The arithmetic is that of binary64: 1 of 3 gives 33.33, and 23 of 160 gives 14.37 (the
  product is just below 14.375), each as the binary64 value nearest to the decimal.
\<close>

theorem conversion_rate_counts:
  assumes admin: "getDbAdmin w userId = Some u"
      and ids: "distinct (map car_id (cars w))"
  shows
    "map_sum id (\<lambda>d. td_conversionRate (dd_testDrives d)) (getDashboardData w userId) =
       Inr (toFixed2 (conversionRate
         (card (spec_soldCarsWithCompletedBooking (cars w) (testDriveBookings w)))
         (length (filter (\<lambda>td. b_status td = ''COMPLETED'') (testDriveBookings w))))) \<and>
     map_sum id (\<lambda>d. td_conversionRate (dd_testDrives d)) (getDashboardData_part000 w userId) =
       map_sum id (\<lambda>d. td_conversionRate (dd_testDrives d)) (getDashboardData w userId) \<and>
     (\<forall>c b1 b2.
        cars w = [c] \<and> car_status c = SOLD \<and> testDriveBookings w = [b1, b2] \<and>
        b_status b1 = ''COMPLETED'' \<and> b_carId b1 = car_id c \<and>
        b_status b2 = ''COMPLETED'' \<and> b_carId b2 = car_id c \<longrightarrow>
        map_sum id (\<lambda>d. td_conversionRate (dd_testDrives d)) (getDashboardData w userId) = Inr 50) \<and>
     toFixed2 (conversionRate 1 2) = 50 \<and>
     toFixed2 (conversionRate 1 3) = roundDouble (3333 / 100) \<and>
     toFixed2 (conversionRate 23 160) = roundDouble (1437 / 100) \<and>
     toFixed2 (conversionRate 23 160) \<noteq> roundDouble (1438 / 100) \<and>
     conversionRate 1 3 \<noteq> toFixed2 (conversionRate 1 3)"
proof (intro conjI allI impI)
  show "map_sum id (\<lambda>d. td_conversionRate (dd_testDrives d)) (getDashboardData w userId) =
       Inr (toFixed2 (conversionRate
         (card (spec_soldCarsWithCompletedBooking (cars w) (testDriveBookings w)))
         (length (filter (\<lambda>td. b_status td = ''COMPLETED'') (testDriveBookings w)))))"
    using getDashboardData_rate [OF admin] soldAfterTD_card [OF ids]
    by (simp add: countStatus_def)
next
  show "map_sum id (\<lambda>d. td_conversionRate (dd_testDrives d)) (getDashboardData_part000 w userId) =
       map_sum id (\<lambda>d. td_conversionRate (dd_testDrives d)) (getDashboardData w userId)"
    by (simp only: getDashboardData_rate [OF admin] getDashboardData_part000_rate [OF admin])
next
  fix c b1 b2
  assume h: "cars w = [c] \<and> car_status c = SOLD \<and> testDriveBookings w = [b1, b2] \<and>
        b_status b1 = ''COMPLETED'' \<and> b_carId b1 = car_id c \<and>
        b_status b2 = ''COMPLETED'' \<and> b_carId b2 = car_id c"
  then have "soldAfterTD (cars w) (testDriveBookings w) = 1"
    and "countStatus ''COMPLETED'' (testDriveBookings w) = 2"
    by (simp_all add: soldAfterTD_def completedCarIds_def countStatus_def)
  then show "map_sum id (\<lambda>d. td_conversionRate (dd_testDrives d)) (getDashboardData w userId) = Inr 50"
    using getDashboardData_rate [OF admin] rate_1_2 by simp
next
  show "toFixed2 (conversionRate 1 2) = 50" by code_simp
next
  show "toFixed2 (conversionRate 1 3) = roundDouble (3333 / 100)" by code_simp
next
  show "toFixed2 (conversionRate 23 160) = roundDouble (1437 / 100)" by code_simp
next
  show "toFixed2 (conversionRate 23 160) \<noteq> roundDouble (1438 / 100)" by code_simp
next
  show "conversionRate 1 3 \<noteq> toFixed2 (conversionRate 1 3)" by code_simp
qed

theorem conversion_rate_counts_witness:
  "map_sum id (\<lambda>d. td_conversionRate (dd_testDrives d))
     (getDashboardData worldTwoCompleted (Some ''clerk_admin'')) = Inr 50 \<and>
   map_sum id (\<lambda>d. td_conversionRate (dd_testDrives d))
     (getDashboardData_part000 worldTwoCompleted (Some ''clerk_admin'')) = Inr 50"
proof -
  have admin: "getDbAdmin worldTwoCompleted (Some ''clerk_admin'') = Some adminUser"
    by (simp add: getDbAdmin_def user_findUnique_def worldTwoCompleted_def adminUser_def)
  have ids: "distinct (map car_id (cars worldTwoCompleted))"
    by (simp add: worldTwoCompleted_def)
  have scenario:
    "cars worldTwoCompleted = [mkCar ''c1'' ''Toyota'' 20000 SOLD 1] \<and>
     car_status (mkCar ''c1'' ''Toyota'' 20000 SOLD 1) = SOLD \<and>
     testDriveBookings worldTwoCompleted =
       [mkBooking ''b1'' ''c1'' ''u2'' ''COMPLETED'', mkBooking ''b2'' ''c1'' ''u2'' ''COMPLETED''] \<and>
     b_status (mkBooking ''b1'' ''c1'' ''u2'' ''COMPLETED'') = ''COMPLETED'' \<and>
     b_carId (mkBooking ''b1'' ''c1'' ''u2'' ''COMPLETED'') = car_id (mkCar ''c1'' ''Toyota'' 20000 SOLD 1) \<and>
     b_status (mkBooking ''b2'' ''c1'' ''u2'' ''COMPLETED'') = ''COMPLETED'' \<and>
     b_carId (mkBooking ''b2'' ''c1'' ''u2'' ''COMPLETED'') = car_id (mkCar ''c1'' ''Toyota'' 20000 SOLD 1)"
    by (simp add: worldTwoCompleted_def mkCar_def mkBooking_def)
  note t = conversion_rate_counts [OF admin ids]
  note same = t [THEN conjunct2, THEN conjunct1]
  note fifty = t [THEN conjunct2, THEN conjunct2, THEN conjunct1, rule_format, OF scenario]
  show ?thesis
    using same fifty by simp
qed

text \<open>
  C2: when no booking has status COMPLETED, \<^verbatim>\<open>getDashboardData\<close> (both variants)
  answers an administrator with a conversion rate of exactly 0: the guard
  \<^verbatim>\<open>completed > 0\<close> selects the constant, and the completed count is 0.
\<close>

theorem no_completed_bookings_rate_zero:
  assumes admin: "getDbAdmin w userId = Some u"
      and none: "filter (\<lambda>td. b_status td = ''COMPLETED'') (testDriveBookings w) = []"
  shows
    "map_sum id (\<lambda>d. td_conversionRate (dd_testDrives d)) (getDashboardData w userId) = Inr 0 \<and>
     map_sum id (\<lambda>d. td_conversionRate (dd_testDrives d)) (getDashboardData_part000 w userId) = Inr 0 \<and>
     map_sum id (\<lambda>d. td_completed (dd_testDrives d)) (getDashboardData w userId) = Inr 0 \<and>
     map_sum id (\<lambda>d. td_completed (dd_testDrives d)) (getDashboardData_part000 w userId) = Inr 0"
proof -
  have zero: "countStatus ''COMPLETED'' (testDriveBookings w) = 0"
    using none by (simp add: countStatus_def)
  have r: "requireAdmin w userId = Inr u"
    using admin by (simp add: getDbAdmin_requireAdmin)
  show ?thesis
    using admin r zero
    by (simp add: getDashboardData_def getDashboardData_part000_def Let_def
          conversionRate_0 toFixed2_0)
qed

theorem no_completed_bookings_rate_zero_witness:
  "map_sum id (\<lambda>d. td_conversionRate (dd_testDrives d))
     (getDashboardData worldNoCompleted (Some ''clerk_admin'')) = Inr 0 \<and>
   map_sum id (\<lambda>d. td_conversionRate (dd_testDrives d))
     (getDashboardData_part000 worldNoCompleted (Some ''clerk_admin'')) = Inr 0"
proof -
  have admin: "getDbAdmin worldNoCompleted (Some ''clerk_admin'') = Some adminUser"
    by (simp add: getDbAdmin_def user_findUnique_def worldNoCompleted_def adminUser_def)
  have none: "filter (\<lambda>td. b_status td = ''COMPLETED'') (testDriveBookings worldNoCompleted) = []"
    by (simp add: worldNoCompleted_def mkBooking_def)
  from no_completed_bookings_rate_zero [OF admin none] show ?thesis
    by simp
qed

section \<open>Properties of the status update\<close>

lemma find_None_image: "find (\<lambda>b. f b = k) xs = None \<longleftrightarrow> k \<notin> f ` set xs"
  by (auto simp: find_None_iff)

lemma find_update_status:
  "k \<in> b_id ` set bs \<Longrightarrow>
   map_option b_status (find (\<lambda>b. b_id b = k) (testDriveBooking_update bs k s)) = Some s"
  by (induction bs) (auto simp: testDriveBooking_update_def)

lemma update_status_all:
  "b \<in> set (testDriveBooking_update bs k s) \<Longrightarrow> b_id b = k \<Longrightarrow> b_status b = s"
proof -
  assume m: "b \<in> set (testDriveBooking_update bs k s)" and k: "b_id b = k"
  from m obtain b0 where b0: "b0 \<in> set bs"
    and b: "b = (if b_id b0 = k then b0\<lparr>b_status := s\<rparr> else b0)"
    unfolding testDriveBooking_update_def by (auto simp only: set_map image_iff)
  show ?thesis
  proof (cases "b_id b0 = k")
    case True
    with b show ?thesis by simp
  next
    case False
    with b k show ?thesis by simp
  qed
qed

lemma update_status_others:
  "filter (\<lambda>b. b_id b \<noteq> k) (testDriveBooking_update bs k s) = filter (\<lambda>b. b_id b \<noteq> k) bs"
  by (induction bs) (auto simp: testDriveBooking_update_def)

lemma validStatuses_set:
  "set validStatuses = {''PENDING'', ''CONFIRMED'', ''COMPLETED'', ''CANCELLED'', ''NO_SHOW''}"
  by (simp add: validStatuses_def)

lemma update_not_found:
  assumes "getDbAdmin w userId = Some u" and "bookingId \<notin> b_id ` set (testDriveBookings w)"
  shows "updateTestDriveStatus w userId bookingId newStatus = (Inl ''Booking not found'', w)"
    and "updateTestDriveStatus_part000 w userId bookingId newStatus = (Inl ''Booking not found'', w)"
proof -
  have f: "testDriveBooking_findUnique (testDriveBookings w) bookingId = None"
    using assms(2) by (simp add: testDriveBooking_findUnique_def find_None_image)
  have r: "requireAdmin w userId = Inr u"
    using assms(1) by (simp add: getDbAdmin_requireAdmin)
  show "updateTestDriveStatus w userId bookingId newStatus = (Inl ''Booking not found'', w)"
    by (simp add: updateTestDriveStatus_def assms(1) f)
  show "updateTestDriveStatus_part000 w userId bookingId newStatus = (Inl ''Booking not found'', w)"
    by (simp add: updateTestDriveStatus_part000_def r f)
qed

lemma update_invalid:
  assumes "getDbAdmin w userId = Some u" and "bookingId \<in> b_id ` set (testDriveBookings w)"
    and "newStatus \<notin> set validStatuses"
  shows "updateTestDriveStatus w userId bookingId newStatus = (Inl ''Invalid status'', w)"
    and "updateTestDriveStatus_part000 w userId bookingId newStatus = (Inl ''Invalid status'', w)"
proof -
  obtain b where f: "testDriveBooking_findUnique (testDriveBookings w) bookingId = Some b"
    using assms(2) find_None_image [of b_id bookingId "testDriveBookings w"]
    by (auto simp: testDriveBooking_findUnique_def)
  have r: "requireAdmin w userId = Inr u"
    using assms(1) by (simp add: getDbAdmin_requireAdmin)
  show "updateTestDriveStatus w userId bookingId newStatus = (Inl ''Invalid status'', w)"
    by (simp add: updateTestDriveStatus_def assms(1) assms(3) f)
  show "updateTestDriveStatus_part000 w userId bookingId newStatus = (Inl ''Invalid status'', w)"
    by (simp add: updateTestDriveStatus_part000_def r assms(3) f)
qed

lemma update_valid:
  assumes "getDbAdmin w userId = Some u" and "bookingId \<in> b_id ` set (testDriveBookings w)"
    and "newStatus \<in> set validStatuses"
  shows "updateTestDriveStatus w userId bookingId newStatus =
          (Inr ''Status updated'',
           w\<lparr> testDriveBookings := testDriveBooking_update (testDriveBookings w) bookingId newStatus,
              revalidated := revalidated w @ [''/admin/test-drives'', ''/reservations''] \<rparr>)"
    and "updateTestDriveStatus_part000 w userId bookingId newStatus =
          (Inr ''Test drive status updated successfully'',
           w\<lparr> testDriveBookings := testDriveBooking_update (testDriveBookings w) bookingId newStatus,
              revalidated := revalidated w @ [''/admin/test-drives'', ''/reservations''] \<rparr>)"
proof -
  obtain b where f: "testDriveBooking_findUnique (testDriveBookings w) bookingId = Some b"
    using assms(2) find_None_image [of b_id bookingId "testDriveBookings w"]
    by (auto simp: testDriveBooking_findUnique_def)
  have r: "requireAdmin w userId = Inr u"
    using assms(1) by (simp add: getDbAdmin_requireAdmin)
  show "updateTestDriveStatus w userId bookingId newStatus =
          (Inr ''Status updated'',
           w\<lparr> testDriveBookings := testDriveBooking_update (testDriveBookings w) bookingId newStatus,
              revalidated := revalidated w @ [''/admin/test-drives'', ''/reservations''] \<rparr>)"
    by (simp add: updateTestDriveStatus_def assms(1) assms(3) f)
  show "updateTestDriveStatus_part000 w userId bookingId newStatus =
          (Inr ''Test drive status updated successfully'',
           w\<lparr> testDriveBookings := testDriveBooking_update (testDriveBookings w) bookingId newStatus,
              revalidated := revalidated w @ [''/admin/test-drives'', ''/reservations''] \<rparr>)"
    by (simp add: updateTestDriveStatus_part000_def r assms(3) f)
qed

text \<open>
  C3: for an administrator (the admin gate comes first), \<^verbatim>\<open>updateTestDriveStatus\<close>
  (both variants), for every booking id and new status: answers \<^verbatim>\<open>Booking not found\<close>
  and changes nothing when no booking has the id; otherwise answers
  \<^verbatim>\<open>Invalid status\<close> and leaves the state, hence the booking's status, unchanged when
  the new status is not one of PENDING, CONFIRMED, COMPLETED, CANCELLED, NO_SHOW;
  otherwise succeeds whatever the old status was, the booking then has the new status
  and the other bookings are as before.
\<close>

theorem updateTestDriveStatus_checks:
  assumes admin: "getDbAdmin w userId = Some u"
  shows
    "(bookingId \<notin> b_id ` set (testDriveBookings w) \<longrightarrow>
        updateTestDriveStatus w userId bookingId newStatus = (Inl ''Booking not found'', w) \<and>
        updateTestDriveStatus_part000 w userId bookingId newStatus = (Inl ''Booking not found'', w)) \<and>
     (bookingId \<in> b_id ` set (testDriveBookings w) \<and>
      newStatus \<notin> {''PENDING'', ''CONFIRMED'', ''COMPLETED'', ''CANCELLED'', ''NO_SHOW''} \<longrightarrow>
        updateTestDriveStatus w userId bookingId newStatus = (Inl ''Invalid status'', w) \<and>
        updateTestDriveStatus_part000 w userId bookingId newStatus = (Inl ''Invalid status'', w)) \<and>
     (bookingId \<in> b_id ` set (testDriveBookings w) \<and>
      newStatus \<in> {''PENDING'', ''CONFIRMED'', ''COMPLETED'', ''CANCELLED'', ''NO_SHOW''} \<longrightarrow>
        fst (updateTestDriveStatus w userId bookingId newStatus) = Inr ''Status updated'' \<and>
        fst (updateTestDriveStatus_part000 w userId bookingId newStatus) =
          Inr ''Test drive status updated successfully'' \<and>
        snd (updateTestDriveStatus_part000 w userId bookingId newStatus) =
          snd (updateTestDriveStatus w userId bookingId newStatus) \<and>
        map_option b_status
          (testDriveBooking_findUnique
             (testDriveBookings (snd (updateTestDriveStatus w userId bookingId newStatus))) bookingId) =
          Some newStatus \<and>
        (\<forall>b \<in> set (testDriveBookings (snd (updateTestDriveStatus w userId bookingId newStatus))).
           b_id b = bookingId \<longrightarrow> b_status b = newStatus) \<and>
        filter (\<lambda>b. b_id b \<noteq> bookingId)
          (testDriveBookings (snd (updateTestDriveStatus w userId bookingId newStatus))) =
          filter (\<lambda>b. b_id b \<noteq> bookingId) (testDriveBookings w))"
  unfolding validStatuses_set [symmetric]
proof (intro conjI impI; (elim conjE)?)
  assume "bookingId \<notin> b_id ` set (testDriveBookings w)"
  from update_not_found [OF admin this]
  show "updateTestDriveStatus w userId bookingId newStatus = (Inl ''Booking not found'', w)"
    and "updateTestDriveStatus_part000 w userId bookingId newStatus = (Inl ''Booking not found'', w)"
    by blast+
next
  assume "bookingId \<in> b_id ` set (testDriveBookings w)" "newStatus \<notin> set validStatuses"
  from update_invalid [OF admin this]
  show "updateTestDriveStatus w userId bookingId newStatus = (Inl ''Invalid status'', w)"
    and "updateTestDriveStatus_part000 w userId bookingId newStatus = (Inl ''Invalid status'', w)"
    by blast+
next
  assume h: "bookingId \<in> b_id ` set (testDriveBookings w)" "newStatus \<in> set validStatuses"
  note upd = update_valid [OF admin h]
  have bs: "testDriveBookings (snd (updateTestDriveStatus w userId bookingId newStatus)) =
      testDriveBooking_update (testDriveBookings w) bookingId newStatus"
    by (simp add: upd(1))
  show "fst (updateTestDriveStatus w userId bookingId newStatus) = Inr ''Status updated''"
    by (simp add: upd(1))
  show "fst (updateTestDriveStatus_part000 w userId bookingId newStatus) =
          Inr ''Test drive status updated successfully''"
    by (simp add: upd(2))
  show "snd (updateTestDriveStatus_part000 w userId bookingId newStatus) =
          snd (updateTestDriveStatus w userId bookingId newStatus)"
    by (simp add: upd)
  show "map_option b_status
          (testDriveBooking_findUnique
             (testDriveBookings (snd (updateTestDriveStatus w userId bookingId newStatus))) bookingId) =
          Some newStatus"
    unfolding bs testDriveBooking_findUnique_def by (rule find_update_status [OF h(1)])
  show "\<forall>b \<in> set (testDriveBookings (snd (updateTestDriveStatus w userId bookingId newStatus))).
           b_id b = bookingId \<longrightarrow> b_status b = newStatus"
    unfolding bs using update_status_all by blast
  show "filter (\<lambda>b. b_id b \<noteq> bookingId)
          (testDriveBookings (snd (updateTestDriveStatus w userId bookingId newStatus))) =
          filter (\<lambda>b. b_id b \<noteq> bookingId) (testDriveBookings w)"
    unfolding bs by (rule update_status_others)
qed

theorem updateTestDriveStatus_checks_witness:
  "updateTestDriveStatus worldBookings (Some ''clerk_admin'') ''b9'' ''CONFIRMED'' =
     (Inl ''Booking not found'', worldBookings) \<and>
   updateTestDriveStatus worldBookings (Some ''clerk_admin'') ''b1'' ''BOGUS'' =
     (Inl ''Invalid status'', worldBookings) \<and>
   updateTestDriveStatus_part000 worldBookings (Some ''clerk_admin'') ''b1'' ''BOGUS'' =
     (Inl ''Invalid status'', worldBookings) \<and>
   fst (updateTestDriveStatus worldBookings (Some ''clerk_admin'') ''b1'' ''PENDING'') =
     Inr ''Status updated'' \<and>
   map_option b_status
     (testDriveBooking_findUnique
        (testDriveBookings (snd (updateTestDriveStatus worldBookings (Some ''clerk_admin'') ''b1'' ''PENDING'')))
        ''b1'') = Some ''PENDING''"
proof -
  have admin: "getDbAdmin worldBookings (Some ''clerk_admin'') = Some adminUser"
    by (simp add: getDbAdmin_def user_findUnique_def worldBookings_def adminUser_def)
  have ids: "b_id ` set (testDriveBookings worldBookings) = {''b1'', ''b2''}"
    by (simp add: worldBookings_def mkBooking_def)
  have a: "''b9'' \<notin> b_id ` set (testDriveBookings worldBookings)"
    and b: "''b1'' \<in> b_id ` set (testDriveBookings worldBookings)"
    unfolding ids by simp_all
  have c: "''BOGUS'' \<notin> {''PENDING'', ''CONFIRMED'', ''COMPLETED'', ''CANCELLED'', ''NO_SHOW''}"
    and d: "''PENDING'' \<in> {''PENDING'', ''CONFIRMED'', ''COMPLETED'', ''CANCELLED'', ''NO_SHOW''}"
    by simp_all
  note t1 = updateTestDriveStatus_checks [OF admin, of "''b9''" "''CONFIRMED''",
      THEN conjunct1, rule_format, OF a]
  note t2 = updateTestDriveStatus_checks [OF admin, of "''b1''" "''BOGUS''",
      THEN conjunct2, THEN conjunct1, rule_format, OF conjI [OF b c]]
  note t3 = updateTestDriveStatus_checks [OF admin, of "''b1''" "''PENDING''",
      THEN conjunct2, THEN conjunct2, rule_format, OF conjI [OF b d]]
  show ?thesis
    using t1 t2 t3 by (elim conjE) (intro conjI, assumption+)
qed

section \<open>Properties of the wishlist toggle\<close>

lemma findUnique_saved_iff:
  "userSavedCar_findUnique ss uid carId \<noteq> None \<longleftrightarrow>
     (\<exists>s \<in> set ss. sc_userId s = uid \<and> sc_carId s = carId)"
  by (auto simp: userSavedCar_findUnique_def find_None_iff)

lemma saved_row_eq:
  "sc_userId s = uid \<Longrightarrow> sc_carId s = carId \<Longrightarrow> s = \<lparr> sc_userId = uid, sc_carId = carId \<rparr>"
  by (cases s) simp

lemma toggle_create:
  assumes "getDbUser w userId = Some u" and "car_findUnique (cars w) carId = Some c"
    and "\<not> isSaved w (user_id u) carId"
  shows "toggleSavedCar w userId carId =
    (Inr True, w\<lparr> userSavedCars := userSavedCars w @ [\<lparr> sc_userId = user_id u, sc_carId = carId \<rparr>],
                  revalidated := revalidated w @ [''/saved-cars'', ''/car/'' @ carId] \<rparr>)"
proof -
  have "userSavedCar_findUnique (userSavedCars w) (user_id u) carId = None"
    using assms(3) findUnique_saved_iff [of "userSavedCars w" "user_id u" carId]
    by (auto simp: isSaved_def)
  then show ?thesis
    by (simp add: toggleSavedCar_def assms(1) assms(2) userSavedCar_create_def)
qed

lemma toggle_delete:
  assumes "getDbUser w userId = Some u" and "car_findUnique (cars w) carId = Some c"
    and "isSaved w (user_id u) carId"
  shows "toggleSavedCar w userId carId =
    (Inr False, w\<lparr> userSavedCars := filter (\<lambda>s. \<not> (sc_userId s = user_id u \<and> sc_carId s = carId)) (userSavedCars w),
                  revalidated := revalidated w @ [''/saved-cars'', ''/car/'' @ carId] \<rparr>)"
proof -
  obtain e where "userSavedCar_findUnique (userSavedCars w) (user_id u) carId = Some e"
    using assms(3) findUnique_saved_iff [of "userSavedCars w" "user_id u" carId]
    by (auto simp: isSaved_def)
  then show ?thesis
    by (simp add: toggleSavedCar_def assms(1) assms(2) userSavedCar_delete_def)
qed

lemma toggle_keeps_users_cars:
  "users (snd (toggleSavedCar w userId carId)) = users w \<and>
   cars (snd (toggleSavedCar w userId carId)) = cars w"
  by (simp add: toggleSavedCar_def split: option.split)

lemma getDbUser_cong: "users w' = users w \<Longrightarrow> getDbUser w' userId = getDbUser w userId"
  by (simp add: getDbUser_def split: option.split)

lemma toggle_flips:
  assumes "getDbUser w userId = Some u" and "car_findUnique (cars w) carId = Some c"
  shows "fst (toggleSavedCar w userId carId) = Inr (\<not> isSaved w (user_id u) carId)"
    and "isSaved (snd (toggleSavedCar w userId carId)) (user_id u) carId = (\<not> isSaved w (user_id u) carId)"
    and "savedRows (snd (toggleSavedCar w userId carId)) (user_id u) carId \<le> 1"
proof -
  show "fst (toggleSavedCar w userId carId) = Inr (\<not> isSaved w (user_id u) carId)"
  proof (cases "isSaved w (user_id u) carId")
    case True
    then show ?thesis by (simp add: toggle_delete [OF assms True])
  next
    case False
    then show ?thesis by (simp add: toggle_create [OF assms False])
  qed
  show "isSaved (snd (toggleSavedCar w userId carId)) (user_id u) carId = (\<not> isSaved w (user_id u) carId)"
  proof (cases "isSaved w (user_id u) carId")
    case True
    then show ?thesis by (simp add: toggle_delete [OF assms True] isSaved_def)
  next
    case False
    then show ?thesis by (simp add: toggle_create [OF assms False] isSaved_def)
  qed
  show "savedRows (snd (toggleSavedCar w userId carId)) (user_id u) carId \<le> 1"
  proof (cases "isSaved w (user_id u) carId")
    case True
    then show ?thesis by (simp add: toggle_delete [OF assms True] savedRows_def)
  next
    case False
    then have "filter (\<lambda>s. sc_userId s = user_id u \<and> sc_carId s = carId) (userSavedCars w) = []"
      by (auto simp: isSaved_def filter_empty_conv)
    then show ?thesis by (simp add: toggle_create [OF assms False] savedRows_def)
  qed
qed

lemma toggle_twice_rows:
  assumes "getDbUser w userId = Some u" and "car_findUnique (cars w) carId = Some c"
  shows "set (userSavedCars (snd (toggleSavedCar (snd (toggleSavedCar w userId carId)) userId carId))) =
         set (userSavedCars w)"
proof (cases "isSaved w (user_id u) carId")
  case True
  let ?w1 = "snd (toggleSavedCar w userId carId)"
  have w1: "userSavedCars ?w1 = filter (\<lambda>s. \<not> (sc_userId s = user_id u \<and> sc_carId s = carId)) (userSavedCars w)"
    by (simp add: toggle_delete [OF assms True])
  have u1: "getDbUser ?w1 userId = Some u" and c1: "car_findUnique (cars ?w1) carId = Some c"
    using assms toggle_keeps_users_cars [of w userId carId] getDbUser_cong [of ?w1 w userId]
    by simp_all
  have n1: "\<not> isSaved ?w1 (user_id u) carId"
    using toggle_flips(2) [OF assms] True by simp
  have w2: "userSavedCars (snd (toggleSavedCar ?w1 userId carId)) =
      userSavedCars ?w1 @ [\<lparr> sc_userId = user_id u, sc_carId = carId \<rparr>]"
    by (simp add: toggle_create [OF u1 c1 n1])
  have row: "\<lparr> sc_userId = user_id u, sc_carId = carId \<rparr> \<in> set (userSavedCars w)"
    using True saved_row_eq unfolding isSaved_def by metis
  show ?thesis
    unfolding w2 w1 using row saved_row_eq [of _ "user_id u" carId] by auto
next
  case False
  let ?w1 = "snd (toggleSavedCar w userId carId)"
  have w1: "userSavedCars ?w1 = userSavedCars w @ [\<lparr> sc_userId = user_id u, sc_carId = carId \<rparr>]"
    by (simp add: toggle_create [OF assms False])
  have u1: "getDbUser ?w1 userId = Some u" and c1: "car_findUnique (cars ?w1) carId = Some c"
    using assms toggle_keeps_users_cars [of w userId carId] getDbUser_cong [of ?w1 w userId]
    by simp_all
  have y1: "isSaved ?w1 (user_id u) carId"
    using toggle_flips(2) [OF assms] False by simp
  have w2: "userSavedCars (snd (toggleSavedCar ?w1 userId carId)) =
      filter (\<lambda>s. \<not> (sc_userId s = user_id u \<and> sc_carId s = carId)) (userSavedCars ?w1)"
    by (simp add: toggle_delete [OF u1 c1 y1])
  have "filter (\<lambda>s. \<not> (sc_userId s = user_id u \<and> sc_carId s = carId)) (userSavedCars w) = userSavedCars w"
    using False by (simp add: isSaved_def filter_id_conv) 
  then show ?thesis
    unfolding w2 w1 by simp
qed

text \<open>
  C4: for an authenticated caller and an existing car, each call of
  \<^verbatim>\<open>toggleSavedCar\<close> reports as \<^verbatim>\<open>saved\<close> the membership of the pair after the
  call, which is the negation of the membership before it; two calls in a row restore the
  original membership (the wishlist has the same rows as at the start); and after either
  call the pair has at most one row.
\<close>

theorem toggleSavedCar_twice:
  assumes user: "getDbUser w userId = Some u"
      and car: "carId \<in> car_id ` set (cars w)"
  shows
    "fst (toggleSavedCar w userId carId) =
       Inr (isSaved (snd (toggleSavedCar w userId carId)) (user_id u) carId) \<and>
     isSaved (snd (toggleSavedCar w userId carId)) (user_id u) carId =
       (\<not> isSaved w (user_id u) carId) \<and>
     fst (toggleSavedCar (snd (toggleSavedCar w userId carId)) userId carId) =
       Inr (isSaved (snd (toggleSavedCar (snd (toggleSavedCar w userId carId)) userId carId))
              (user_id u) carId) \<and>
     isSaved (snd (toggleSavedCar (snd (toggleSavedCar w userId carId)) userId carId))
       (user_id u) carId = isSaved w (user_id u) carId \<and>
     set (userSavedCars (snd (toggleSavedCar (snd (toggleSavedCar w userId carId)) userId carId))) =
       set (userSavedCars w) \<and>
     savedRows (snd (toggleSavedCar w userId carId)) (user_id u) carId \<le> 1 \<and>
     savedRows (snd (toggleSavedCar (snd (toggleSavedCar w userId carId)) userId carId))
       (user_id u) carId \<le> 1"
proof -
  obtain c where c: "car_findUnique (cars w) carId = Some c"
    using car find_None_image [of car_id carId "cars w"]
    by (auto simp: car_findUnique_def)
  let ?w1 = "snd (toggleSavedCar w userId carId)"
  have u1: "getDbUser ?w1 userId = Some u" and c1: "car_findUnique (cars ?w1) carId = Some c"
    using user c toggle_keeps_users_cars [of w userId carId] getDbUser_cong [of ?w1 w userId]
    by simp_all
  note a = toggle_flips [OF user c]
  note b = toggle_flips [OF u1 c1]
  show ?thesis
    using a b toggle_twice_rows [OF user c] by simp
qed


theorem toggleSavedCar_twice_witness:
  "fst (toggleSavedCar worldWishlist (Some ''clerk_user'') ''c1'') = Inr True \<and>
   fst (toggleSavedCar (snd (toggleSavedCar worldWishlist (Some ''clerk_user'') ''c1''))
          (Some ''clerk_user'') ''c1'') = Inr False \<and>
   set (userSavedCars (snd (toggleSavedCar (snd (toggleSavedCar worldWishlist (Some ''clerk_user'') ''c1''))
          (Some ''clerk_user'') ''c1''))) = set (userSavedCars worldWishlist) \<and>
   fst (toggleSavedCar worldWishlist (Some ''clerk_user'') ''c2'') = Inr False"
proof -
  have user: "getDbUser worldWishlist (Some ''clerk_user'') = Some plainUser"
    by (simp add: getDbUser_def user_findUnique_def worldWishlist_def adminUser_def plainUser_def)
  have uid: "user_id plainUser = ''u2''"
    by (simp add: plainUser_def)
  have c1: "''c1'' \<in> car_id ` set (cars worldWishlist)"
    and c2: "''c2'' \<in> car_id ` set (cars worldWishlist)"
    by (simp_all add: worldWishlist_def mkCar_def)
  have n1: "\<not> isSaved worldWishlist ''u2'' ''c1''" and y2: "isSaved worldWishlist ''u2'' ''c2''"
    by (simp_all add: isSaved_def worldWishlist_def)
  note t1 = toggleSavedCar_twice [OF user c1, unfolded uid]
  note t2 = toggleSavedCar_twice [OF user c2, unfolded uid]
  have a: "fst (toggleSavedCar worldWishlist (Some ''clerk_user'') ''c1'') = Inr True"
    using t1 n1 by simp
  have b: "fst (toggleSavedCar (snd (toggleSavedCar worldWishlist (Some ''clerk_user'') ''c1''))
          (Some ''clerk_user'') ''c1'') = Inr False"
    using t1 n1 by simp
  have c: "fst (toggleSavedCar worldWishlist (Some ''clerk_user'') ''c2'') = Inr False"
    using t2 y2 by simp
  show ?thesis
    using a b c t1 by simp
qed

section \<open>Denial and admission by the admin gate\<close>

lemma getDbAdmin_None_iff: "getDbAdmin w userId = None \<longleftrightarrow> \<not> callerIsAdmin w userId"
  by (auto simp: getDbAdmin_def callerIsAdmin_def split: option.splits)

lemma requireAdmin_denied_message:
  "\<not> callerIsAdmin w userId \<Longrightarrow> requireAdmin w userId = Inl (deniedMessage userId)"
  by (auto simp: requireAdmin_def callerIsAdmin_def deniedMessage_def split: option.splits)

lemma callerIsAdmin_tables:
  "callerIsAdmin (w\<lparr>cars := cs, testDriveBookings := bs\<rparr>) userId = callerIsAdmin w userId"
  by (simp add: callerIsAdmin_def split: option.split)

lemma denied_admin_js:
  assumes "\<not> callerIsAdmin w userId"
  shows "getAdminTestDrives st w userId search status = Inl ''Unauthorized''"
    and "updateTestDriveStatus w userId bookingId newStatus = (Inl ''Unauthorized'', w)"
    and "getDashboardData w userId = Inl ''Unauthorized''"
  using assms getDbAdmin_None_iff [of w userId]
  by (simp_all add: getAdminTestDrives_def updateTestDriveStatus_def getDashboardData_def)

lemma denied_part000:
  assumes "\<not> callerIsAdmin w userId"
  shows "getAdminTestDrives_part000 st w userId search status = Inl (deniedMessage userId)"
    and "updateTestDriveStatus_part000 w userId bookingId newStatus = (Inl (deniedMessage userId), w)"
    and "getDashboardData_part000 w userId = Inl (deniedMessage userId)"
  using requireAdmin_denied_message [OF assms]
  by (simp_all add: getAdminTestDrives_part000_def updateTestDriveStatus_part000_def
        getDashboardData_part000_def)

lemma admitted_admin_js:
  assumes "callerIsAdmin w userId"
  shows "getAdminTestDrives st w userId search status = Inr (findTestDrives st w search status)"
    and "\<exists>d. getDashboardData w userId = Inr d"
    and "fst (updateTestDriveStatus w userId bookingId newStatus) \<noteq> Inl ''Unauthorized''"
proof -
  obtain u where u: "getDbAdmin w userId = Some u"
    using assms getDbAdmin_None_iff [of w userId] by auto
  show "getAdminTestDrives st w userId search status = Inr (findTestDrives st w search status)"
    by (simp add: getAdminTestDrives_def u)
  show "\<exists>d. getDashboardData w userId = Inr d"
    by (simp add: getDashboardData_def u Let_def)
  show "fst (updateTestDriveStatus w userId bookingId newStatus) \<noteq> Inl ''Unauthorized''"
    by (simp add: updateTestDriveStatus_def u split: option.split)
qed

lemma admitted_part000:
  assumes "callerIsAdmin w userId"
  shows "getAdminTestDrives_part000 st w userId search status = Inr (findTestDrives st w search status)"
    and "\<exists>d. getDashboardData_part000 w userId = Inr d"
    and "fst (updateTestDriveStatus_part000 w userId bookingId newStatus) \<noteq> Inl (deniedMessage userId)"
proof -
  obtain u where "getDbAdmin w userId = Some u"
    using assms getDbAdmin_None_iff [of w userId] by auto
  then have u: "requireAdmin w userId = Inr u"
    by (simp add: getDbAdmin_requireAdmin)
  show "getAdminTestDrives_part000 st w userId search status = Inr (findTestDrives st w search status)"
    by (simp add: getAdminTestDrives_part000_def u)
  show "\<exists>d. getDashboardData_part000 w userId = Inr d"
    by (simp add: getDashboardData_part000_def u Let_def)
  show "fst (updateTestDriveStatus_part000 w userId bookingId newStatus) \<noteq> Inl (deniedMessage userId)"
    by (simp add: updateTestDriveStatus_part000_def u deniedMessage_def split: option.split)
qed

text \<open>
  C8: for a caller who is anonymous or whose user record is missing or has not role
  ADMIN, \<^verbatim>\<open>getAdminTestDrives\<close>, \<^verbatim>\<open>updateTestDriveStatus\<close> and
  \<^verbatim>\<open>getDashboardData\<close> (both variants) answer with the unauthorized failure envelope,
  leave the state as it is, and answer the same whatever the car and booking tables
  hold; a caller with role ADMIN passes the check: the two queries succeed and the
  update does not answer with the unauthorized envelope.
\<close>

theorem admin_gate:
  "(\<not> callerIsAdmin w userId \<longrightarrow>
      getAdminTestDrives st w userId search status = Inl ''Unauthorized'' \<and>
      updateTestDriveStatus w userId bookingId newStatus = (Inl ''Unauthorized'', w) \<and>
      getDashboardData w userId = Inl ''Unauthorized'' \<and>
      getAdminTestDrives_part000 st w userId search status = Inl (deniedMessage userId) \<and>
      updateTestDriveStatus_part000 w userId bookingId newStatus = (Inl (deniedMessage userId), w) \<and>
      getDashboardData_part000 w userId = Inl (deniedMessage userId) \<and>
      getAdminTestDrives st (w\<lparr>cars := cs, testDriveBookings := bs\<rparr>) userId search status =
        getAdminTestDrives st w userId search status \<and>
      fst (updateTestDriveStatus (w\<lparr>cars := cs, testDriveBookings := bs\<rparr>) userId bookingId newStatus) =
        fst (updateTestDriveStatus w userId bookingId newStatus) \<and>
      getDashboardData (w\<lparr>cars := cs, testDriveBookings := bs\<rparr>) userId =
        getDashboardData w userId \<and>
      getAdminTestDrives_part000 st (w\<lparr>cars := cs, testDriveBookings := bs\<rparr>) userId search status =
        getAdminTestDrives_part000 st w userId search status \<and>
      fst (updateTestDriveStatus_part000 (w\<lparr>cars := cs, testDriveBookings := bs\<rparr>) userId bookingId newStatus) =
        fst (updateTestDriveStatus_part000 w userId bookingId newStatus) \<and>
      getDashboardData_part000 (w\<lparr>cars := cs, testDriveBookings := bs\<rparr>) userId =
        getDashboardData_part000 w userId) \<and>
   (callerIsAdmin w userId \<longrightarrow>
      getAdminTestDrives st w userId search status = Inr (findTestDrives st w search status) \<and>
      getAdminTestDrives_part000 st w userId search status = Inr (findTestDrives st w search status) \<and>
      (\<exists>d. getDashboardData w userId = Inr d) \<and>
      (\<exists>d. getDashboardData_part000 w userId = Inr d) \<and>
      fst (updateTestDriveStatus w userId bookingId newStatus) \<noteq> Inl ''Unauthorized'' \<and>
      fst (updateTestDriveStatus_part000 w userId bookingId newStatus) \<noteq> Inl (deniedMessage userId))"
proof (intro conjI impI)
  assume d: "\<not> callerIsAdmin w userId"
  then have d': "\<not> callerIsAdmin (w\<lparr>cars := cs, testDriveBookings := bs\<rparr>) userId"
    by (simp add: callerIsAdmin_tables)
  note a = denied_admin_js [OF d] and b = denied_part000 [OF d]
    and a' = denied_admin_js [OF d'] and b' = denied_part000 [OF d']
  show "getAdminTestDrives st w userId search status = Inl ''Unauthorized''" by (rule a)
  show "updateTestDriveStatus w userId bookingId newStatus = (Inl ''Unauthorized'', w)" by (rule a)
  show "getDashboardData w userId = Inl ''Unauthorized''" by (rule a)
  show "getAdminTestDrives_part000 st w userId search status = Inl (deniedMessage userId)" by (rule b)
  show "updateTestDriveStatus_part000 w userId bookingId newStatus = (Inl (deniedMessage userId), w)"
    by (rule b)
  show "getDashboardData_part000 w userId = Inl (deniedMessage userId)" by (rule b)
  show "getAdminTestDrives st (w\<lparr>cars := cs, testDriveBookings := bs\<rparr>) userId search status =
        getAdminTestDrives st w userId search status"
    by (simp only: a a')
  show "fst (updateTestDriveStatus (w\<lparr>cars := cs, testDriveBookings := bs\<rparr>) userId bookingId newStatus) =
        fst (updateTestDriveStatus w userId bookingId newStatus)"
    by (simp only: a a' fst_conv)
  show "getDashboardData (w\<lparr>cars := cs, testDriveBookings := bs\<rparr>) userId =
        getDashboardData w userId"
    by (simp only: a a')
  show "getAdminTestDrives_part000 st (w\<lparr>cars := cs, testDriveBookings := bs\<rparr>) userId search status =
        getAdminTestDrives_part000 st w userId search status"
    by (simp only: b b')
  show "fst (updateTestDriveStatus_part000 (w\<lparr>cars := cs, testDriveBookings := bs\<rparr>) userId bookingId newStatus) =
        fst (updateTestDriveStatus_part000 w userId bookingId newStatus)"
    by (simp only: b b' fst_conv)
  show "getDashboardData_part000 (w\<lparr>cars := cs, testDriveBookings := bs\<rparr>) userId =
        getDashboardData_part000 w userId"
    by (simp only: b b')
next
  assume a: "callerIsAdmin w userId"
  show "getAdminTestDrives st w userId search status = Inr (findTestDrives st w search status)"
    by (rule admitted_admin_js [OF a])
  show "getAdminTestDrives_part000 st w userId search status = Inr (findTestDrives st w search status)"
    by (rule admitted_part000 [OF a])
  show "\<exists>d. getDashboardData w userId = Inr d" by (rule admitted_admin_js [OF a])
  show "\<exists>d. getDashboardData_part000 w userId = Inr d" by (rule admitted_part000 [OF a])
  show "fst (updateTestDriveStatus w userId bookingId newStatus) \<noteq> Inl ''Unauthorized''"
    by (rule admitted_admin_js [OF a])
  show "fst (updateTestDriveStatus_part000 w userId bookingId newStatus) \<noteq> Inl (deniedMessage userId)"
    by (rule admitted_part000 [OF a])
qed

theorem admin_gate_witness:
  "getDashboardData worldBookings None = Inl ''Unauthorized'' \<and>
   getDashboardData worldBookings (Some ''clerk_user'') = Inl ''Unauthorized'' \<and>
   getDashboardData_part000 worldBookings (Some ''clerk_user'') = Inl ''Unauthorized access'' \<and>
   getAdminTestDrives exampleStore worldBookings (Some ''clerk_ghost'') [] [] = Inl ''Unauthorized'' \<and>
   updateTestDriveStatus worldBookings (Some ''clerk_user'') ''b1'' ''CANCELLED'' =
     (Inl ''Unauthorized'', worldBookings) \<and>
   updateTestDriveStatus_part000 worldBookings None ''b1'' ''CANCELLED'' =
     (Inl ''Unauthorized'', worldBookings) \<and>
   getAdminTestDrives exampleStore worldBookings (Some ''clerk_admin'') [] [] =
     Inr (findTestDrives exampleStore worldBookings [] [])"
proof -
  have n0: "\<not> callerIsAdmin worldBookings None"
    and n1: "\<not> callerIsAdmin worldBookings (Some ''clerk_user'')"
    and n2: "\<not> callerIsAdmin worldBookings (Some ''clerk_ghost'')"
    and y: "callerIsAdmin worldBookings (Some ''clerk_admin'')"
    by (simp_all add: callerIsAdmin_def user_findUnique_def worldBookings_def adminUser_def
          plainUser_def)
  have m0: "deniedMessage None = ''Unauthorized''"
    and m1: "deniedMessage (Some ''clerk_user'') = ''Unauthorized access''"
    by (simp_all add: deniedMessage_def)
  note g0 = admin_gate [where st = exampleStore and w = worldBookings and userId = "None" and
      search = "[]" and status = "[]" and bookingId = "''b1''" and newStatus = "''CANCELLED''" and
      cs = "[]" and bs = "[]",
      THEN conjunct1, rule_format, OF n0]
  note g1 = admin_gate [where st = exampleStore and w = worldBookings and userId = "Some ''clerk_user''" and
      search = "[]" and status = "[]" and bookingId = "''b1''" and newStatus = "''CANCELLED''" and
      cs = "[]" and bs = "[]",
      THEN conjunct1, rule_format, OF n1]
  note g2 = admin_gate [where st = exampleStore and w = worldBookings and userId = "Some ''clerk_ghost''" and
      search = "[]" and status = "[]" and bookingId = "''b1''" and newStatus = "''CANCELLED''" and
      cs = "[]" and bs = "[]",
      THEN conjunct1, rule_format, OF n2]
  note g3 = admin_gate [where st = exampleStore and w = worldBookings and userId = "Some ''clerk_admin''" and
      search = "[]" and status = "[]" and bookingId = "''b1''" and newStatus = "''CANCELLED''" and
      cs = "[]" and bs = "[]",
      THEN conjunct2, rule_format, OF y]
  show ?thesis
    using g0 g1 g2 g3 unfolding m0 m1 by (elim conjE) (intro conjI, assumption+)
qed

section \<open>Properties of binary64 arithmetic\<close>

lemma bitLength_le: "n < 2 ^ k \<Longrightarrow> bitLength n \<le> k"
proof (induction k arbitrary: n)
  case 0
  then show ?case by (simp add: bitLength.simps)
next
  case (Suc k)
  show ?case
  proof (cases "n \<le> 0")
    case True
    then show ?thesis by (simp add: bitLength.simps)
  next
    case False
    from Suc.prems have "n div 2 < 2 ^ k" by simp
    from Suc.IH [OF this] False show ?thesis
      by (subst bitLength.simps) simp
  qed
qed

lemma roundHalfEven_of_int: "roundHalfEven (of_int k) = k"
  by (simp add: roundHalfEven_def Let_def)

lemma scale_of_int:
  assumes "e \<le> 52"
  shows "of_int (roundHalfEven (of_int n / twoToThe (e - 52))) * twoToThe (e - 52) = of_int n"
proof -
  define m where "m = nat (52 - e)"
  have u: "twoToThe (e - 52) = 1 / 2 ^ m"
    using assms by (auto simp: twoToThe_def m_def)
  have "of_int n / twoToThe (e - 52) = (of_int (n * 2 ^ m) :: rat)"
    by (simp add: u)
  then have "roundHalfEven (of_int n / twoToThe (e - 52)) = n * 2 ^ m"
    by (simp only: roundHalfEven_of_int)
  then show ?thesis
    by (simp add: u)
qed

text \<open>An integer below \<open>2 ^ 53\<close> in absolute value is a binary64 value.\<close>

lemma roundDouble_of_int:
  assumes "\<bar>n\<bar> < 2 ^ 53"
  shows "roundDouble (of_int n) = of_int n"
proof (cases "n = 0")
  case True
  then show ?thesis by (simp add: roundDouble_def)
next
  case False
  then have "1 \<le> \<bar>n\<bar>"
    by simp
  then have "(of_int 1 :: rat) \<le> of_int \<bar>n\<bar>"
    by (simp only: of_int_le_iff)
  then have one: "(1::rat) \<le> \<bar>of_int n\<bar>"
    by simp
  have fl: "\<lfloor>\<bar>of_int n :: rat\<bar>\<rfloor> = \<bar>n\<bar>"
    by (metis floor_of_int of_int_abs)
  from bitLength_le [OF assms] have "floorLog2 \<bar>of_int n\<bar> \<le> 52"
    using one by (simp add: floorLog2_def fl)
  then have e: "max (floorLog2 \<bar>of_int n\<bar>) (- 1022) \<le> 52"
    by simp
  show ?thesis
    using False scale_of_int [OF e, of n]
    by (simp add: roundDouble_def Let_def)
qed

lemma skipOf_exact:
  assumes "\<bar>page - 1\<bar> < 2 ^ 53" and "\<bar>(page - 1) * limit\<bar> < 2 ^ 53"
  shows "skipOf page limit = (page - 1) * limit"
proof -
  have a: "roundDouble (of_int page - 1) = of_int (page - 1)"
    using roundDouble_of_int [OF assms(1)] by simp
  have b: "roundDouble (of_int (page - 1) * of_int limit) = of_int ((page - 1) * limit)"
    using roundDouble_of_int [OF assms(2)] by simp
  show ?thesis
    by (simp only: skipOf_def a b floor_of_int)
qed

lemma skipOf_positive:
  assumes p: "0 < page" and l: "0 < limit" and small: "page * limit < 2 ^ 53"
  shows "skipOf page limit = (page - 1) * limit"
proof -
  define s where "s = (page - 1) * limit"
  define t where "t = page * limit"
  have a: "0 \<le> page - 1" using p by simp
  have "(page - 1) * 1 \<le> (page - 1) * limit"
    using a l by (intro mult_left_mono) simp_all
  then have b: "page - 1 \<le> s"
    by (simp add: s_def)
  have "(page - 1) * limit \<le> page * limit"
    using l by (intro mult_right_mono) simp_all
  then have c: "s \<le> t"
    by (simp only: s_def t_def)
  have d: "t < 2 ^ 53"
    using small by (simp only: t_def)
  have "\<bar>page - 1\<bar> < 2 ^ 53"
    using a b c d by linarith
  moreover have "\<bar>s\<bar> < 2 ^ 53"
    using a b c d by linarith
  ultimately show ?thesis
    unfolding s_def by (rule skipOf_exact)
qed

section \<open>Properties of the marketplace handlers\<close>

lemma set_orderCars: "set (orderCars ord cs) = set cs"
  by (cases ord) (simp_all add: orderCars_def)

lemma length_orderCars: "length (orderCars ord cs) = length cs"
  by (cases ord) (simp_all add: orderCars_def)

lemma set_window: "window tk sk xs = Some ys \<Longrightarrow> set ys \<subseteq> set xs"
proof -
  assume a: "window tk sk xs = Some ys"
  have t: "set (take n (drop m zs)) \<subseteq> set zs" for n m and zs :: "'a list"
    by (meson set_take_subset set_drop_subset subset_trans)
  show ?thesis
  proof (cases "0 \<le> tk")
    case True
    with a have "ys = take (nat tk) (drop (nat sk) xs)"
      by (simp add: window_def split: if_splits)
    then show ?thesis using t [of "nat tk" "nat sk" xs] by simp
  next
    case False
    with a have "ys = rev (take (nat (- tk)) (drop (nat sk) (rev xs)))"
      by (simp add: window_def split: if_splits)
    then show ?thesis using t [of "nat (- tk)" "nat sk" "rev xs"] by simp
  qed
qed

lemma window_nonneg:
  "0 \<le> sk \<Longrightarrow> sk \<le> INT64_MAX \<Longrightarrow> 0 \<le> tk \<Longrightarrow> tk \<le> INT64_MAX \<Longrightarrow>
   window tk sk xs = Some (take (nat tk) (drop (nat sk) xs))"
  by (simp add: window_def)

lemma window_Some_iff:
  "(\<exists>ys. window tk sk xs = Some ys) \<longleftrightarrow>
     0 \<le> sk \<and> sk \<le> INT64_MAX \<and> - INT64_MAX - 1 \<le> tk \<and> tk \<le> INT64_MAX"
  by (auto simp: window_def)

lemma getCars_unfold:
  "getCars rt st w userId q =
     (if \<not> priceBoundsFinite (carWhere rt q) \<or>
         st_refuses st (carWhere rt q) (q_limit q) (skipOf (q_page q) (q_limit q))
      then Inl ''Failed to fetch cars''
      else case window (q_limit q) (skipOf (q_page q) (q_limit q)) (matchingSorted rt st w q) of
             None \<Rightarrow> Inl ''Failed to fetch cars''
           | Some found \<Rightarrow>
               Inr \<lparr> cp_data =
                       map (\<lambda>car. serializeCarData car (Some (car_id car \<in> wishlistOf w userId))) found,
                     cp_pagination =
                       \<lparr> pg_total = length (filter (carMatches st (carWhere rt q)) (cars w)),
                         pg_page = q_page q,
                         pg_limit = q_limit q,
                         pg_pages =
                           (if q_limit q > 0
                            then \<lceil>(of_nat (length (filter (carMatches st (carWhere rt q)) (cars w))) :: rat) /
                                   of_int (q_limit q)\<rceil>
                            else 0) \<rparr> \<rparr>)"
  by (simp add: getCars_def Let_def matchingSorted_def wishlistOf_def split: option.split)

lemma getCars_Inr_window:
  assumes "getCars rt st w userId q = Inr page"
  shows "priceBoundsFinite (carWhere rt q)"
    and "window (q_limit q) (skipOf (q_page q) (q_limit q)) (matchingSorted rt st w q) =
           Some (map sz_car (cp_data page))"
    and "map sz_wishlisted (cp_data page) =
           map (\<lambda>c. Some (car_id c \<in> wishlistOf w userId)) (map sz_car (cp_data page))"
    and "pg_total (cp_pagination page) = length (filter (carMatches st (carWhere rt q)) (cars w))"
    and "pg_pages (cp_pagination page) =
           (if q_limit q > 0
            then \<lceil>(of_nat (length (filter (carMatches st (carWhere rt q)) (cars w))) :: rat) /
                   of_int (q_limit q)\<rceil>
            else 0)"
proof -
  have ok: "\<not> (\<not> priceBoundsFinite (carWhere rt q) \<or>
         st_refuses st (carWhere rt q) (q_limit q) (skipOf (q_page q) (q_limit q)))"
    using assms by (auto simp: getCars_unfold split: if_splits)
  then show "priceBoundsFinite (carWhere rt q)"
    by simp
  obtain found where f: "window (q_limit q) (skipOf (q_page q) (q_limit q)) (matchingSorted rt st w q) = Some found"
    using assms ok by (auto simp: getCars_unfold split: option.splits)
  have p: "page = \<lparr> cp_data =
                       map (\<lambda>car. serializeCarData car (Some (car_id car \<in> wishlistOf w userId))) found,
                     cp_pagination =
                       \<lparr> pg_total = length (filter (carMatches st (carWhere rt q)) (cars w)),
                         pg_page = q_page q,
                         pg_limit = q_limit q,
                         pg_pages =
                           (if q_limit q > 0
                            then \<lceil>(of_nat (length (filter (carMatches st (carWhere rt q)) (cars w))) :: rat) /
                                   of_int (q_limit q)\<rceil>
                            else 0) \<rparr> \<rparr>"
    using assms ok f by (simp add: getCars_unfold)
  have d: "map sz_car (cp_data page) = found"
    by (simp add: p serializeCarData_def comp_def)
  show "window (q_limit q) (skipOf (q_page q) (q_limit q)) (matchingSorted rt st w q) =
           Some (map sz_car (cp_data page))"
    by (simp add: f d)
  show "map sz_wishlisted (cp_data page) =
           map (\<lambda>c. Some (car_id c \<in> wishlistOf w userId)) (map sz_car (cp_data page))"
    unfolding d by (simp add: p serializeCarData_def comp_def)
  show "pg_total (cp_pagination page) = length (filter (carMatches st (carWhere rt q)) (cars w))"
    by (simp add: p)
  show "pg_pages (cp_pagination page) =
           (if q_limit q > 0
            then \<lceil>(of_nat (length (filter (carMatches st (carWhere rt q)) (cars w))) :: rat) /
                   of_int (q_limit q)\<rceil>
            else 0)"
    by (simp add: p)
qed

text \<open>\<^verbatim>\<open>getCars\<close> answers with a page exactly when the store accepts the query.\<close>

lemma getCars_succeeds_iff:
  "(\<exists>page. getCars rt st w userId q = Inr page) \<longleftrightarrow> storeAccepts rt st q"
proof
  assume "\<exists>page. getCars rt st w userId q = Inr page"
  then obtain page where p: "getCars rt st w userId q = Inr page" ..
  have nr: "\<not> st_refuses st (carWhere rt q) (q_limit q) (skipOf (q_page q) (q_limit q))"
    using p by (auto simp: getCars_unfold split: if_splits)
  have "\<exists>ys. window (q_limit q) (skipOf (q_page q) (q_limit q)) (matchingSorted rt st w q) = Some ys"
    using getCars_Inr_window(2) [OF p] by (rule exI)
  then have "0 \<le> skipOf (q_page q) (q_limit q) \<and> skipOf (q_page q) (q_limit q) \<le> INT64_MAX \<and>
      - INT64_MAX - 1 \<le> q_limit q \<and> q_limit q \<le> INT64_MAX"
    by (simp only: window_Some_iff)
  then show "storeAccepts rt st q"
    using getCars_Inr_window(1) [OF p] nr by (simp add: storeAccepts_def)
next
  assume a: "storeAccepts rt st q"
  then have "0 \<le> skipOf (q_page q) (q_limit q) \<and> skipOf (q_page q) (q_limit q) \<le> INT64_MAX \<and>
      - INT64_MAX - 1 \<le> q_limit q \<and> q_limit q \<le> INT64_MAX"
    by (simp add: storeAccepts_def)
  then have "\<exists>ys. window (q_limit q) (skipOf (q_page q) (q_limit q)) (matchingSorted rt st w q) = Some ys"
    by (simp only: window_Some_iff)
  then obtain ys where
    "window (q_limit q) (skipOf (q_page q) (q_limit q)) (matchingSorted rt st w q) = Some ys" ..
  then show "\<exists>page. getCars rt st w userId q = Inr page"
    using a by (simp add: getCars_unfold storeAccepts_def)
qed

lemma getCars_Inl: "getCars rt st w userId q = Inl e \<Longrightarrow> e = ''Failed to fetch cars''"
  by (auto simp: getCars_unfold split: if_splits option.splits)

lemma getCars_items_match:
  assumes "getCars rt st w userId q = Inr page" and "item \<in> set (cp_data page)"
  shows "sz_car item \<in> set (cars w)" and "carMatches st (carWhere rt q) (sz_car item)"
proof -
  have "sz_car item \<in> set (map sz_car (cp_data page))"
    using assms(2) by simp
  also have "\<dots> \<subseteq> set (matchingSorted rt st w q)"
    by (rule set_window [OF getCars_Inr_window(2) [OF assms(1)]])
  finally have "sz_car item \<in> set (filter (carMatches st (carWhere rt q)) (cars w))"
    by (simp add: matchingSorted_def set_orderCars)
  then show "sz_car item \<in> set (cars w)" and "carMatches st (carWhere rt q) (sz_car item)"
    by simp_all
qed

lemma carMatches_status: "carMatches st wh c \<Longrightarrow> car_status c = wh_status wh"
  by (simp add: carMatches_def)

lemma carMatches_gte: "carMatches st wh c \<Longrightarrow> wh_price_gte wh = Num lo \<Longrightarrow> lo \<le> car_price c"
  by (simp add: carMatches_def)

lemma carMatches_lte: "carMatches st wh c \<Longrightarrow> wh_price_lte wh = Some (Num hi) \<Longrightarrow> car_price c \<le> hi"
  by (simp add: carMatches_def)

lemma carWhere_status: "wh_status (carWhere rt q) = AVAILABLE"
  by (simp add: carWhere_def)

lemma carWhere_gte: "wh_price_gte (carWhere rt q) = parseFloatOrZero rt (q_minPrice q)"
  by (simp add: carWhere_def)

lemma carWhere_lte:
  "wh_price_lte (carWhere rt q) =
     (if truthy (q_maxPrice q) \<and> lessThanNumber rt (q_maxPrice q) MAX_SAFE_INTEGER
      then Some (parseFloat rt (q_maxPrice q)) else None)"
  by (simp add: carWhere_def)

text \<open>
  C10: the \<^verbatim>\<open>where\<close> object of \<^verbatim>\<open>getCars\<close> has status AVAILABLE for every
  query and whatever the built-ins return, so every car of a successful answer is
  AVAILABLE, and the total counts AVAILABLE cars only.
\<close>

theorem getCars_only_available:
  "wh_status (carWhere rt q) = AVAILABLE \<and>
   (\<forall>page. getCars rt st w userId q = Inr page \<longrightarrow>
      (\<forall>item \<in> set (cp_data page). car_status (sz_car item) = AVAILABLE) \<and>
      pg_total (cp_pagination page) \<le> length (filter (\<lambda>c. car_status c = AVAILABLE) (cars w)))"
proof (intro conjI allI impI ballI)
  show "wh_status (carWhere rt q) = AVAILABLE" by (rule carWhere_status)
next
  fix page item
  assume p: "getCars rt st w userId q = Inr page" and i: "item \<in> set (cp_data page)"
  from carMatches_status [OF getCars_items_match(2) [OF p i]]
  show "car_status (sz_car item) = AVAILABLE" by (simp add: carWhere_status)
next
  fix page
  assume p: "getCars rt st w userId q = Inr page"
  have "filter (carMatches st (carWhere rt q)) (cars w) =
        filter (carMatches st (carWhere rt q)) (filter (\<lambda>c. car_status c = AVAILABLE) (cars w))"
    using carMatches_status [of st "carWhere rt q"]
    by (auto simp: carWhere_status intro!: filter_cong)
  then have "length (filter (carMatches st (carWhere rt q)) (cars w)) \<le>
             length (filter (\<lambda>c. car_status c = AVAILABLE) (cars w))"
    by (metis length_filter_le)
  then show "pg_total (cp_pagination page) \<le> length (filter (\<lambda>c. car_status c = AVAILABLE) (cars w))"
    by (simp add: getCars_Inr_window(4) [OF p])
qed

theorem getCars_only_available_witness:
  "(case getCars exampleBuiltins exampleStore worldMarket None defaultQuery of
      Inl e \<Rightarrow> False
    | Inr page \<Rightarrow>
        map (\<lambda>item. car_id (sz_car item)) (cp_data page) = [''c5'', ''c2'', ''c1''] \<and>
        list_all (\<lambda>item. car_status (sz_car item) = AVAILABLE) (cp_data page))"
proof -
  have "map_sum id (\<lambda>p. map (\<lambda>item. car_id (sz_car item)) (cp_data p))
          (getCars exampleBuiltins exampleStore worldMarket None defaultQuery) =
        Inr [''c5'', ''c2'', ''c1'']"
    by code_simp
  then obtain page where
    p: "getCars exampleBuiltins exampleStore worldMarket None defaultQuery = Inr page"
    and ids: "map (\<lambda>item. car_id (sz_car item)) (cp_data page) = [''c5'', ''c2'', ''c1'']"
    by (cases "getCars exampleBuiltins exampleStore worldMarket None defaultQuery") auto
  from getCars_only_available [where rt = exampleBuiltins and st = exampleStore and
      q = defaultQuery and w = worldMarket and userId = None] p
  have "\<forall>item \<in> set (cp_data page). car_status (sz_car item) = AVAILABLE"
    by blast
  then show ?thesis
    by (simp add: p ids list_all_iff)
qed

lemma wishlistOf_anonymous: "getDbUser w userId = None \<Longrightarrow> wishlistOf w userId = {}"
  by (simp add: wishlistOf_def)

lemma matchingSorted_tables:
  "matchingSorted rt st (w\<lparr>userSavedCars := ss\<rparr>) q = matchingSorted rt st w q"
  by (simp add: matchingSorted_def)

text \<open>
  C9: for a caller with no resolvable identity, every item of a \<^verbatim>\<open>getCars\<close>
  answer carries the flag false, the answer exists under the conditions of any caller
  (those under which the store accepts the query), and it is the same whatever the
  saved-car table holds (no lookup); \<^verbatim>\<open>getCarById\<close> of an existing car succeeds with
  the flag false and no \<^verbatim>\<open>userTestDrive\<close>, whatever the saved-car and booking tables
  hold.
\<close>

theorem anonymous_caller:
  assumes anon: "getDbUser w userId = None"
  shows
    "(\<forall>page. getCars rt st w userId q = Inr page \<longrightarrow>
        (\<forall>item \<in> set (cp_data page). sz_wishlisted item = Some False)) \<and>
     ((\<exists>page. getCars rt st w userId q = Inr page) \<longleftrightarrow> storeAccepts rt st q) \<and>
     getCars rt st (w\<lparr>userSavedCars := ss\<rparr>) userId q = getCars rt st w userId q \<and>
     (\<forall>car. car_findUnique (cars w) carId = Some car \<longrightarrow>
        getCarById w userId carId =
          Inr \<lparr> cd_car = serializeCarData car (Some False),
                cd_userTestDrive = None,
                cd_dealership = (case dealershipInfo w of [] \<Rightarrow> None | d # _ \<Rightarrow> Some d) \<rparr>) \<and>
     getCarById (w\<lparr>userSavedCars := ss, testDriveBookings := bs\<rparr>) userId carId =
       getCarById w userId carId"
proof (intro conjI allI impI ballI)
  fix page item
  assume p: "getCars rt st w userId q = Inr page" and i: "item \<in> set (cp_data page)"
  have "map sz_wishlisted (cp_data page) = map (\<lambda>c. Some False) (map sz_car (cp_data page))"
    using getCars_Inr_window(3) [OF p] by (simp add: wishlistOf_anonymous [OF anon])
  then have "\<forall>x \<in> set (cp_data page). sz_wishlisted x = Some False"
    by (simp add: comp_def)
  with i show "sz_wishlisted item = Some False" by blast
next
  show "(\<exists>page. getCars rt st w userId q = Inr page) \<longleftrightarrow> storeAccepts rt st q"
    by (rule getCars_succeeds_iff)
next
  have u: "getDbUser (w\<lparr>userSavedCars := ss\<rparr>) userId = None"
    using anon getDbUser_cong [of "w\<lparr>userSavedCars := ss\<rparr>" w userId] by simp
  show "getCars rt st (w\<lparr>userSavedCars := ss\<rparr>) userId q = getCars rt st w userId q"
    by (simp add: getCars_unfold matchingSorted_tables wishlistOf_anonymous [OF anon]
          wishlistOf_anonymous [OF u] split: option.split)
next
  fix car
  assume "car_findUnique (cars w) carId = Some car"
  then show "getCarById w userId carId =
          Inr \<lparr> cd_car = serializeCarData car (Some False),
                cd_userTestDrive = None,
                cd_dealership = (case dealershipInfo w of [] \<Rightarrow> None | d # _ \<Rightarrow> Some d) \<rparr>"
    by (simp add: getCarById_def anon Let_def)
next
  have u: "getDbUser (w\<lparr>userSavedCars := ss, testDriveBookings := bs\<rparr>) userId = None"
    using anon getDbUser_cong [of "w\<lparr>userSavedCars := ss, testDriveBookings := bs\<rparr>" w userId]
    by simp
  show "getCarById (w\<lparr>userSavedCars := ss, testDriveBookings := bs\<rparr>) userId carId =
       getCarById w userId carId"
    by (simp add: getCarById_def anon u Let_def split: option.split)
qed

theorem anonymous_caller_witness:
  "(case getCars exampleBuiltins exampleStore worldMarket None defaultQuery of
      Inl e \<Rightarrow> False
    | Inr page \<Rightarrow>
        map (\<lambda>item. car_id (sz_car item)) (cp_data page) = [''c5'', ''c2'', ''c1''] \<and>
        list_all (\<lambda>item. sz_wishlisted item = Some False) (cp_data page)) \<and>
   getCarById worldMarket None ''c2'' =
     Inr \<lparr> cd_car = serializeCarData (mkCar ''c2'' ''Honda'' 15000 AVAILABLE 2) (Some False),
           cd_userTestDrive = None, cd_dealership = None \<rparr> \<and>
   getCarById worldMarket (Some ''clerk_ghost'') ''c2'' = getCarById worldMarket None ''c2''"
proof -
  have anon: "getDbUser worldMarket None = None"
    and ghost: "getDbUser worldMarket (Some ''clerk_ghost'') = None"
    by (simp_all add: getDbUser_def user_findUnique_def worldMarket_def adminUser_def plainUser_def)
  have acc: "storeAccepts exampleBuiltins exampleStore defaultQuery"
    by code_simp
  have c2: "car_findUnique (cars worldMarket) ''c2'' = Some (mkCar ''c2'' ''Honda'' 15000 AVAILABLE 2)"
    by (simp add: car_findUnique_def worldMarket_def mkCar_def)
  have d: "dealershipInfo worldMarket = []"
    by (simp add: worldMarket_def)
  note t = anonymous_caller [OF anon, where rt = exampleBuiltins and st = exampleStore and
      q = defaultQuery and carId = "''c2''"]
  note g = anonymous_caller [OF ghost, where rt = exampleBuiltins and st = exampleStore and
      q = defaultQuery and carId = "''c2''"]
  from t [THEN conjunct2, THEN conjunct1, THEN iffD2, OF acc]
  obtain page where p: "getCars exampleBuiltins exampleStore worldMarket None defaultQuery = Inr page" ..
  have "map_sum id (\<lambda>p. map (\<lambda>item. car_id (sz_car item)) (cp_data p))
          (getCars exampleBuiltins exampleStore worldMarket None defaultQuery) =
        Inr [''c5'', ''c2'', ''c1'']"
    by code_simp
  then have ids: "map (\<lambda>item. car_id (sz_car item)) (cp_data page) = [''c5'', ''c2'', ''c1'']"
    by (simp add: p)
  from t [THEN conjunct1, rule_format, OF p]
  have "\<forall>item \<in> set (cp_data page). sz_wishlisted item = Some False"
    by (intro ballI)
  then have a: "list_all (\<lambda>item. sz_wishlisted item = Some False) (cp_data page)"
    by (simp add: list_all_iff)
  have b: "getCarById worldMarket None ''c2'' =
     Inr \<lparr> cd_car = serializeCarData (mkCar ''c2'' ''Honda'' 15000 AVAILABLE 2) (Some False),
           cd_userTestDrive = None, cd_dealership = None \<rparr>"
    using t c2 by (simp add: d)
  have c: "getCarById worldMarket (Some ''clerk_ghost'') ''c2'' = getCarById worldMarket None ''c2''"
    using g c2 b by (simp add: d)
  show ?thesis
    using a b c by (simp add: p ids)
qed

lemma nth_take_drop:
  "i < length (take n (drop m xs)) \<Longrightarrow> take n (drop m xs) ! i = xs ! (m + i)"
proof -
  assume a: "i < length (take n (drop m xs))"
  then have "m \<le> length xs" and "i < n" by auto
  then show ?thesis by simp
qed

lemma matchingSorted_ordered:
  "(q_sortBy q = ''priceAsc'' \<longrightarrow> sorted (map car_price (matchingSorted rt st w q))) \<and>
   (q_sortBy q = ''priceDesc'' \<longrightarrow>
      sorted_wrt (\<lambda>a b. car_price b \<le> car_price a) (matchingSorted rt st w q)) \<and>
   (q_sortBy q \<noteq> ''priceAsc'' \<and> q_sortBy q \<noteq> ''priceDesc'' \<longrightarrow>
      sorted_wrt (\<lambda>a b. car_createdAt b \<le> car_createdAt a) (matchingSorted rt st w q))"
proof (intro conjI impI)
  assume "q_sortBy q = ''priceAsc''"
  then show "sorted (map car_price (matchingSorted rt st w q))"
    by (simp add: matchingSorted_def carOrderBy_def orderCars_def)
next
  assume "q_sortBy q = ''priceDesc''"
  then have "sorted (map (\<lambda>c. - car_price c) (matchingSorted rt st w q))"
    by (simp add: matchingSorted_def carOrderBy_def orderCars_def)
  then show "sorted_wrt (\<lambda>a b. car_price b \<le> car_price a) (matchingSorted rt st w q)"
    by (simp add: sorted_map)
next
  assume "q_sortBy q \<noteq> ''priceAsc'' \<and> q_sortBy q \<noteq> ''priceDesc''"
  then have "sorted (map (\<lambda>c. - int (car_createdAt c)) (matchingSorted rt st w q))"
    by (simp add: matchingSorted_def carOrderBy_def orderCars_def)
  then show "sorted_wrt (\<lambda>a b. car_createdAt b \<le> car_createdAt a) (matchingSorted rt st w q)"
    by (simp add: sorted_map)
qed

text \<open>
  The page of a query the store accepts, with positive \<^verbatim>\<open>page\<close> and \<^verbatim>\<open>limit\<close>.
\<close>

lemma getCars_page:
  assumes pg: "0 < q_page q" and lim: "0 < q_limit q" and acc: "storeAccepts rt st q"
  obtains page where "getCars rt st w userId q = Inr page"
    and "map sz_car (cp_data page) =
           take (nat (q_limit q)) (drop (nat (skipOf (q_page q) (q_limit q))) (matchingSorted rt st w q))"
    and "pg_total (cp_pagination page) = length (matchingSorted rt st w q)"
    and "pg_total (cp_pagination page) = length (filter (carMatches st (carWhere rt q)) (cars w))"
    and "pg_pages (cp_pagination page) =
           \<lceil>(of_nat (pg_total (cp_pagination page)) :: rat) / of_int (q_limit q)\<rceil>"
proof -
  let ?skip = "skipOf (q_page q) (q_limit q)"
  let ?full = "matchingSorted rt st w q"
  from acc have sk: "0 \<le> ?skip" and sk': "?skip \<le> INT64_MAX" and tk': "q_limit q \<le> INT64_MAX"
    by (simp_all add: storeAccepts_def)
  from lim have tk: "0 \<le> q_limit q" by simp
  from getCars_succeeds_iff [of rt st w userId q] acc
  obtain page where p: "getCars rt st w userId q = Inr page" by blast
  have win: "map sz_car (cp_data page) = take (nat (q_limit q)) (drop (nat ?skip) ?full)"
    using getCars_Inr_window(2) [OF p] window_nonneg [OF sk sk' tk tk', of ?full] by simp
  have tot: "pg_total (cp_pagination page) = length (filter (carMatches st (carWhere rt q)) (cars w))"
    by (rule getCars_Inr_window(4) [OF p])
  have tot': "pg_total (cp_pagination page) = length ?full"
    by (simp add: tot matchingSorted_def length_orderCars)
  have pages: "pg_pages (cp_pagination page) =
           \<lceil>(of_nat (pg_total (cp_pagination page)) :: rat) / of_int (q_limit q)\<rceil>"
    using getCars_Inr_window(5) [OF p] lim by (simp add: tot)
  from p win tot' tot pages show ?thesis by (rule that)
qed

text \<open>
  C6, as amended: when the store accepts the query, \<^verbatim>\<open>getCars\<close> with positive page
  and limit answers with the window of the predicate-matching sorted sequence that
  starts after \<^verbatim>\<open>skip\<close> elements and holds at most \<^verbatim>\<open>limit\<close>: the elements
  (page-1)*limit+1 to page*limit when page*limit is below \<open>2 ^ 53\<close> (items 7 to 12 for
  page 2 and limit 6), none when the page lies beyond the end; the total is the number of
  all matches, and pages is the ceiling of total/limit. With a limit of 0 or less, pages
  is 0. The sequence holds exactly the matching cars, in the requested order. The answer
  is a page exactly when the store accepts the query, and the failure envelope otherwise.
  Beyond \<open>2 ^ 53\<close> \<^verbatim>\<open>skip\<close> is the rounded product: for page \<open>2 ^ 62\<close> and limit 2
  it is \<open>2 ^ 63\<close>.
\<close>

theorem getCars_pagination:
  "(0 < q_page q \<and> 0 < q_limit q \<and> storeAccepts rt st q \<longrightarrow>
      (\<exists>page. getCars rt st w userId q = Inr page \<and>
         map sz_car (cp_data page) =
           take (nat (q_limit q))
             (drop (nat (skipOf (q_page q) (q_limit q))) (matchingSorted rt st w q)) \<and>
         (length (matchingSorted rt st w q) \<le> nat (skipOf (q_page q) (q_limit q)) \<longrightarrow>
            cp_data page = []) \<and>
         pg_total (cp_pagination page) = length (matchingSorted rt st w q) \<and>
         pg_total (cp_pagination page) =
           length (filter (carMatches st (carWhere rt q)) (cars w)) \<and>
         pg_pages (cp_pagination page) =
           \<lceil>(of_nat (pg_total (cp_pagination page)) :: rat) / of_int (q_limit q)\<rceil> \<and>
         (q_page q * q_limit q < 2 ^ 53 \<longrightarrow>
            map sz_car (cp_data page) =
              take (nat (q_limit q))
                (drop (nat ((q_page q - 1) * q_limit q)) (matchingSorted rt st w q)) \<and>
            (\<forall>i < length (cp_data page).
               sz_car (cp_data page ! i) =
                 matchingSorted rt st w q ! (nat ((q_page q - 1) * q_limit q) + i)) \<and>
            length (cp_data page) =
              min (nat (q_limit q))
                (length (matchingSorted rt st w q) - nat ((q_page q - 1) * q_limit q)) \<and>
            (q_page q = 2 \<and> q_limit q = 6 \<longrightarrow>
               map sz_car (cp_data page) = take 6 (drop 6 (matchingSorted rt st w q))) \<and>
            (length (matchingSorted rt st w q) \<le> nat ((q_page q - 1) * q_limit q) \<longrightarrow>
               cp_data page = [])))) \<and>
   (0 < q_page q \<and> 0 < q_limit q \<and> q_page q * q_limit q < 2 ^ 53 \<longrightarrow>
      skipOf (q_page q) (q_limit q) = (q_page q - 1) * q_limit q) \<and>
   (\<forall>page. q_limit q \<le> 0 \<and> getCars rt st w userId q = Inr page \<longrightarrow>
      pg_pages (cp_pagination page) = 0) \<and>
   set (matchingSorted rt st w q) = {c \<in> set (cars w). carMatches st (carWhere rt q) c} \<and>
   (q_sortBy q = ''priceAsc'' \<longrightarrow> sorted (map car_price (matchingSorted rt st w q))) \<and>
   (q_sortBy q = ''priceDesc'' \<longrightarrow>
      sorted_wrt (\<lambda>a b. car_price b \<le> car_price a) (matchingSorted rt st w q)) \<and>
   (q_sortBy q \<noteq> ''priceAsc'' \<and> q_sortBy q \<noteq> ''priceDesc'' \<longrightarrow>
      sorted_wrt (\<lambda>a b. car_createdAt b \<le> car_createdAt a) (matchingSorted rt st w q)) \<and>
   ((\<exists>page. getCars rt st w userId q = Inr page) \<longleftrightarrow> storeAccepts rt st q) \<and>
   (\<not> storeAccepts rt st q \<longrightarrow> getCars rt st w userId q = Inl ''Failed to fetch cars'') \<and>
   skipOf 4611686018427387904 2 = 9223372036854775808"
  (is "?PAGE \<and> ?SKIP \<and> ?ZERO \<and> ?SET \<and> ?ASC \<and> ?DESC \<and> ?NEW \<and> ?IFF \<and> ?FAIL \<and> ?ROUND")
proof -
  let ?skip = "skipOf (q_page q) (q_limit q)"
  let ?exact = "(q_page q - 1) * q_limit q"
  let ?full = "matchingSorted rt st w q"
  have page: ?PAGE
  proof (intro impI, elim conjE)
    assume pg: "0 < q_page q" and lim: "0 < q_limit q" and acc: "storeAccepts rt st q"
    from getCars_page [OF pg lim acc, of w userId]
    obtain page where p: "getCars rt st w userId q = Inr page"
      and win: "map sz_car (cp_data page) = take (nat (q_limit q)) (drop (nat ?skip) ?full)"
      and tot': "pg_total (cp_pagination page) = length ?full"
      and tot: "pg_total (cp_pagination page) =
          length (filter (carMatches st (carWhere rt q)) (cars w))"
      and pages: "pg_pages (cp_pagination page) =
           \<lceil>(of_nat (pg_total (cp_pagination page)) :: rat) / of_int (q_limit q)\<rceil>"
      by this
    have len: "length (cp_data page) = length (take (nat (q_limit q)) (drop (nat ?skip) ?full))"
      using arg_cong [OF win, of length] by simp
    have far: "length ?full \<le> nat ?skip \<longrightarrow> cp_data page = []"
      using len by auto
    have small: "q_page q * q_limit q < 2 ^ 53 \<longrightarrow>
            map sz_car (cp_data page) = take (nat (q_limit q)) (drop (nat ?exact) ?full) \<and>
            (\<forall>i < length (cp_data page). sz_car (cp_data page ! i) = ?full ! (nat ?exact + i)) \<and>
            length (cp_data page) = min (nat (q_limit q)) (length ?full - nat ?exact) \<and>
            (q_page q = 2 \<and> q_limit q = 6 \<longrightarrow> map sz_car (cp_data page) = take 6 (drop 6 ?full)) \<and>
            (length ?full \<le> nat ?exact \<longrightarrow> cp_data page = [])"
    proof (rule impI)
      assume "q_page q * q_limit q < 2 ^ 53"
      then have sk: "?skip = ?exact"
        by (rule skipOf_positive [OF pg lim])
      have win': "map sz_car (cp_data page) = take (nat (q_limit q)) (drop (nat ?exact) ?full)"
        using win by (simp only: sk)
      have len': "length (cp_data page) = length (take (nat (q_limit q)) (drop (nat ?exact) ?full))"
        using len by (simp only: sk)
      have idx: "\<forall>i < length (cp_data page). sz_car (cp_data page ! i) = ?full ! (nat ?exact + i)"
      proof (intro allI impI)
        fix i assume i: "i < length (cp_data page)"
        then have "sz_car (cp_data page ! i) = map sz_car (cp_data page) ! i" by simp
        also have "\<dots> = take (nat (q_limit q)) (drop (nat ?exact) ?full) ! i" by (simp only: win')
        also have "\<dots> = ?full ! (nat ?exact + i)"
          using i len' by (intro nth_take_drop) simp
        finally show "sz_car (cp_data page ! i) = ?full ! (nat ?exact + i)" .
      qed
      have len'': "length (cp_data page) = min (nat (q_limit q)) (length ?full - nat ?exact)"
        using len' by (simp add: min.commute)
      have two: "q_page q = 2 \<and> q_limit q = 6 \<longrightarrow> map sz_car (cp_data page) = take 6 (drop 6 ?full)"
        using win' by auto
      have far': "length ?full \<le> nat ?exact \<longrightarrow> cp_data page = []"
        using len' by auto
      show "map sz_car (cp_data page) = take (nat (q_limit q)) (drop (nat ?exact) ?full) \<and>
            (\<forall>i < length (cp_data page). sz_car (cp_data page ! i) = ?full ! (nat ?exact + i)) \<and>
            length (cp_data page) = min (nat (q_limit q)) (length ?full - nat ?exact) \<and>
            (q_page q = 2 \<and> q_limit q = 6 \<longrightarrow> map sz_car (cp_data page) = take 6 (drop 6 ?full)) \<and>
            (length ?full \<le> nat ?exact \<longrightarrow> cp_data page = [])"
        by (intro conjI win' idx len'' two far')
    qed
    show "\<exists>page. getCars rt st w userId q = Inr page \<and>
         map sz_car (cp_data page) = take (nat (q_limit q)) (drop (nat ?skip) ?full) \<and>
         (length ?full \<le> nat ?skip \<longrightarrow> cp_data page = []) \<and>
         pg_total (cp_pagination page) = length ?full \<and>
         pg_total (cp_pagination page) = length (filter (carMatches st (carWhere rt q)) (cars w)) \<and>
         pg_pages (cp_pagination page) =
           \<lceil>(of_nat (pg_total (cp_pagination page)) :: rat) / of_int (q_limit q)\<rceil> \<and>
         (q_page q * q_limit q < 2 ^ 53 \<longrightarrow>
            map sz_car (cp_data page) = take (nat (q_limit q)) (drop (nat ?exact) ?full) \<and>
            (\<forall>i < length (cp_data page). sz_car (cp_data page ! i) = ?full ! (nat ?exact + i)) \<and>
            length (cp_data page) = min (nat (q_limit q)) (length ?full - nat ?exact) \<and>
            (q_page q = 2 \<and> q_limit q = 6 \<longrightarrow> map sz_car (cp_data page) = take 6 (drop 6 ?full)) \<and>
            (length ?full \<le> nat ?exact \<longrightarrow> cp_data page = []))"
      by (intro exI [of _ page] conjI p win far tot' tot pages small)
  qed
  have skip: ?SKIP
    using skipOf_positive [of "q_page q" "q_limit q"] by simp
  have zero: ?ZERO
  proof (intro allI impI)
    fix page
    assume "q_limit q \<le> 0 \<and> getCars rt st w userId q = Inr page"
    then show "pg_pages (cp_pagination page) = 0"
      using getCars_Inr_window(5) [of rt st w userId q page] by simp
  qed
  have set: ?SET
    by (simp add: matchingSorted_def set_orderCars)
  note ord = matchingSorted_ordered [of q rt st w]
  have iff: ?IFF
    by (rule getCars_succeeds_iff)
  have fail: ?FAIL
  proof (rule impI)
    assume "\<not> storeAccepts rt st q"
    then have "\<not> (\<exists>page. getCars rt st w userId q = Inr page)"
      by (simp add: getCars_succeeds_iff)
    then show "getCars rt st w userId q = Inl ''Failed to fetch cars''"
      using getCars_Inl [of rt st w userId q] by (cases "getCars rt st w userId q") simp_all
  qed
  have round: ?ROUND
    by code_simp
  show ?thesis
    using page skip zero set ord iff fail round by (elim conjE) (intro conjI, assumption+)
qed

text \<open>
  The claim as stated fails: a call with positive page and limit can end in an error.
  With \<^verbatim>\<open>maxPrice\<close> a string of two blanks (page 1, limit 6) the guard passes
  (the string is truthy and converts to 0) and the bound attached is \<^verbatim>\<open>NaN\<close>, which
  the store refuses. With page \<open>10 ^ 19\<close> and limit 6, a page beyond the 8 matching cars,
  \<^verbatim>\<open>skip\<close> is no signed 64-bit integer and the store refuses it. Both calls are
  answered with the failure envelope, not with an empty page, whatever else the store does.
\<close>

theorem getCars_pagination_counterexample:
  "0 < q_page blankMaxQuery \<and> 0 < q_limit blankMaxQuery \<and>
   (\<forall>st. getCars exampleBuiltins st worldShowroom None blankMaxQuery =
      Inl ''Failed to fetch cars'') \<and>
   0 < q_page hugePageQuery \<and> 0 < q_limit hugePageQuery \<and>
   length (matchingSorted exampleBuiltins exampleStore worldShowroom hugePageQuery) = 8 \<and>
   (\<forall>st. getCars exampleBuiltins st worldShowroom None hugePageQuery =
      Inl ''Failed to fetch cars'')"
proof -
  have pl: "0 < q_page blankMaxQuery" "0 < q_limit blankMaxQuery"
    "0 < q_page hugePageQuery" "0 < q_limit hugePageQuery"
    by (simp_all add: blankMaxQuery_def hugePageQuery_def defaultQuery_def)
  have nf: "\<not> priceBoundsFinite (carWhere exampleBuiltins blankMaxQuery)"
    by code_simp
  have b: "getCars exampleBuiltins st worldShowroom None blankMaxQuery =
      Inl ''Failed to fetch cars''" for st
    using nf by (simp add: getCars_unfold)
  have sk: "skipOf (q_page hugePageQuery) (q_limit hugePageQuery) = 60000000000000000000"
    by code_simp
  have win: "window (q_limit hugePageQuery) (skipOf (q_page hugePageQuery) (q_limit hugePageQuery)) xs =
      None" for xs :: "Car list"
    by (simp add: sk window_def INT64_MAX_def)
  have h: "getCars exampleBuiltins st worldShowroom None hugePageQuery =
      Inl ''Failed to fetch cars''" for st
    by (simp add: getCars_unfold win)
  have len: "length (matchingSorted exampleBuiltins exampleStore worldShowroom hugePageQuery) = 8"
    by code_simp
  show ?thesis
    using pl len by (simp add: b h)
qed

theorem getCars_pagination_witness:
  "(case getCars exampleBuiltins exampleStore worldShowroom None pageTwoQuery of
      Inl e \<Rightarrow> False
    | Inr page \<Rightarrow>
        map (\<lambda>item. car_id (sz_car item)) (cp_data page) = [''c2'', ''c1''] \<and>
        pg_total (cp_pagination page) = 8 \<and> pg_pages (cp_pagination page) = 2) \<and>
   (case getCars exampleBuiltins exampleStore worldShowroom None farPageQuery of
      Inl e \<Rightarrow> False
    | Inr page \<Rightarrow> cp_data page = [] \<and> pg_total (cp_pagination page) = 8) \<and>
   (case getCars exampleBuiltins exampleStore worldShowroom None zeroLimitQuery of
      Inl e \<Rightarrow> False
    | Inr page \<Rightarrow> pg_pages (cp_pagination page) = 0) \<and>
   sorted_wrt (\<lambda>a b. car_createdAt b \<le> car_createdAt a)
     (matchingSorted exampleBuiltins exampleStore worldShowroom pageTwoQuery) \<and>
   getCars exampleBuiltins exampleStore worldShowroom None blankMaxQuery =
     Inl ''Failed to fetch cars''"
proof -
  note t2 = getCars_pagination [where q = pageTwoQuery and rt = exampleBuiltins and
      st = exampleStore and w = worldShowroom and userId = None]
  note t7 = getCars_pagination [where q = farPageQuery and rt = exampleBuiltins and
      st = exampleStore and w = worldShowroom and userId = None]
  note t0 = getCars_pagination [where q = zeroLimitQuery and rt = exampleBuiltins and
      st = exampleStore and w = worldShowroom and userId = None]
  note tb = getCars_pagination [where q = blankMaxQuery and rt = exampleBuiltins and
      st = exampleStore and w = worldShowroom and userId = None]
  have ms2: "map car_id (matchingSorted exampleBuiltins exampleStore worldShowroom pageTwoQuery) =
      [''c8'', ''c7'', ''c6'', ''c5'', ''c4'', ''c3'', ''c2'', ''c1'']"
    by code_simp
  have ms7: "length (matchingSorted exampleBuiltins exampleStore worldShowroom farPageQuery) = 8"
    by code_simp
  have pl2: "q_page pageTwoQuery = 2 \<and> q_limit pageTwoQuery = 6"
    by (simp add: pageTwoQuery_def defaultQuery_def)
  have pl7: "q_page farPageQuery = 7 \<and> q_limit farPageQuery = 6"
    by (simp add: farPageQuery_def defaultQuery_def)
  have acc2: "storeAccepts exampleBuiltins exampleStore pageTwoQuery"
    and acc7: "storeAccepts exampleBuiltins exampleStore farPageQuery"
    and acc0: "storeAccepts exampleBuiltins exampleStore zeroLimitQuery"
    and accb: "\<not> storeAccepts exampleBuiltins exampleStore blankMaxQuery"
    by code_simp+
  have h2: "0 < q_page pageTwoQuery \<and> 0 < q_limit pageTwoQuery \<and>
      storeAccepts exampleBuiltins exampleStore pageTwoQuery"
    using acc2 by (simp add: pl2)
  have h7: "0 < q_page farPageQuery \<and> 0 < q_limit farPageQuery \<and>
      storeAccepts exampleBuiltins exampleStore farPageQuery"
    using acc7 by (simp add: pl7)
  have s2: "q_page pageTwoQuery * q_limit pageTwoQuery < 2 ^ 53"
    and s7: "q_page farPageQuery * q_limit farPageQuery < 2 ^ 53"
    by (simp_all add: pl2 pl7)
  have far: "length (matchingSorted exampleBuiltins exampleStore worldShowroom farPageQuery) \<le>
      nat ((q_page farPageQuery - 1) * q_limit farPageQuery)"
    by (simp add: ms7 pl7)
  have z: "q_limit zeroLimitQuery \<le> 0"
    by (simp add: zeroLimitQuery_def)
  have newest: "q_sortBy pageTwoQuery \<noteq> ''priceAsc'' \<and> q_sortBy pageTwoQuery \<noteq> ''priceDesc''"
    by (simp add: pageTwoQuery_def defaultQuery_def)
  have c: "\<lceil>(8::rat) / 6\<rceil> = 2"
    by code_simp
  from t2 [THEN conjunct1, rule_format, OF h2]
  obtain p2 where p2: "getCars exampleBuiltins exampleStore worldShowroom None pageTwoQuery = Inr p2"
    and t2': "pg_total (cp_pagination p2) =
        length (matchingSorted exampleBuiltins exampleStore worldShowroom pageTwoQuery)"
    and g2: "pg_pages (cp_pagination p2) =
        \<lceil>(of_nat (pg_total (cp_pagination p2)) :: rat) / of_int (q_limit pageTwoQuery)\<rceil>"
    and sm2: "q_page pageTwoQuery * q_limit pageTwoQuery < 2 ^ 53 \<longrightarrow>
        map sz_car (cp_data p2) =
          take (nat (q_limit pageTwoQuery))
            (drop (nat ((q_page pageTwoQuery - 1) * q_limit pageTwoQuery))
               (matchingSorted exampleBuiltins exampleStore worldShowroom pageTwoQuery)) \<and>
        (\<forall>i < length (cp_data p2).
           sz_car (cp_data p2 ! i) =
             matchingSorted exampleBuiltins exampleStore worldShowroom pageTwoQuery !
               (nat ((q_page pageTwoQuery - 1) * q_limit pageTwoQuery) + i)) \<and>
        length (cp_data p2) =
          min (nat (q_limit pageTwoQuery))
            (length (matchingSorted exampleBuiltins exampleStore worldShowroom pageTwoQuery) -
             nat ((q_page pageTwoQuery - 1) * q_limit pageTwoQuery)) \<and>
        (q_page pageTwoQuery = 2 \<and> q_limit pageTwoQuery = 6 \<longrightarrow>
           map sz_car (cp_data p2) =
             take 6 (drop 6 (matchingSorted exampleBuiltins exampleStore worldShowroom pageTwoQuery))) \<and>
        (length (matchingSorted exampleBuiltins exampleStore worldShowroom pageTwoQuery) \<le>
           nat ((q_page pageTwoQuery - 1) * q_limit pageTwoQuery) \<longrightarrow>
           cp_data p2 = [])"
    by (elim exE conjE) (rule that, assumption+)
  from sm2 [rule_format, OF s2, THEN conjunct2, THEN conjunct2, THEN conjunct2, THEN conjunct1,
      rule_format, OF pl2]
  have d2: "map sz_car (cp_data p2) =
        take 6 (drop 6 (matchingSorted exampleBuiltins exampleStore worldShowroom pageTwoQuery))" .
  from t7 [THEN conjunct1, rule_format, OF h7]
  obtain p7 where p7: "getCars exampleBuiltins exampleStore worldShowroom None farPageQuery = Inr p7"
    and t7': "pg_total (cp_pagination p7) =
        length (matchingSorted exampleBuiltins exampleStore worldShowroom farPageQuery)"
    and sm7: "q_page farPageQuery * q_limit farPageQuery < 2 ^ 53 \<longrightarrow>
        map sz_car (cp_data p7) =
          take (nat (q_limit farPageQuery))
            (drop (nat ((q_page farPageQuery - 1) * q_limit farPageQuery))
               (matchingSorted exampleBuiltins exampleStore worldShowroom farPageQuery)) \<and>
        (\<forall>i < length (cp_data p7).
           sz_car (cp_data p7 ! i) =
             matchingSorted exampleBuiltins exampleStore worldShowroom farPageQuery !
               (nat ((q_page farPageQuery - 1) * q_limit farPageQuery) + i)) \<and>
        length (cp_data p7) =
          min (nat (q_limit farPageQuery))
            (length (matchingSorted exampleBuiltins exampleStore worldShowroom farPageQuery) -
             nat ((q_page farPageQuery - 1) * q_limit farPageQuery)) \<and>
        (q_page farPageQuery = 2 \<and> q_limit farPageQuery = 6 \<longrightarrow>
           map sz_car (cp_data p7) =
             take 6 (drop 6 (matchingSorted exampleBuiltins exampleStore worldShowroom farPageQuery))) \<and>
        (length (matchingSorted exampleBuiltins exampleStore worldShowroom farPageQuery) \<le>
           nat ((q_page farPageQuery - 1) * q_limit farPageQuery) \<longrightarrow>
           cp_data p7 = [])"
    by (elim exE conjE) (rule that, assumption+)
  from sm7 [rule_format, OF s7, THEN conjunct2, THEN conjunct2, THEN conjunct2, THEN conjunct2,
      rule_format, OF far]
  have d7: "cp_data p7 = []" .
  from t0 [THEN conjunct2, THEN conjunct2, THEN conjunct2, THEN conjunct2, THEN conjunct2,
      THEN conjunct2, THEN conjunct2, THEN conjunct1, THEN iffD2, OF acc0]
  obtain p0 where p0: "getCars exampleBuiltins exampleStore worldShowroom None zeroLimitQuery = Inr p0" ..
  from t0 [THEN conjunct2, THEN conjunct2, THEN conjunct1, rule_format, OF conjI [OF z p0]]
  have g0: "pg_pages (cp_pagination p0) = 0" .
  from t2 [THEN conjunct2, THEN conjunct2, THEN conjunct2, THEN conjunct2, THEN conjunct2,
      THEN conjunct2, THEN conjunct1, rule_format, OF newest]
  have ord: "sorted_wrt (\<lambda>a b. car_createdAt b \<le> car_createdAt a)
     (matchingSorted exampleBuiltins exampleStore worldShowroom pageTwoQuery)" .
  from tb [THEN conjunct2, THEN conjunct2, THEN conjunct2, THEN conjunct2, THEN conjunct2,
      THEN conjunct2, THEN conjunct2, THEN conjunct2, THEN conjunct1, rule_format, OF accb]
  have fb: "getCars exampleBuiltins exampleStore worldShowroom None blankMaxQuery =
     Inl ''Failed to fetch cars''" .
  have ids: "map (\<lambda>item. car_id (sz_car item)) (cp_data p2) = [''c2'', ''c1'']"
  proof -
    have "map (\<lambda>item. car_id (sz_car item)) (cp_data p2) = map car_id (map sz_car (cp_data p2))"
      by (simp add: comp_def)
    also have "\<dots> = take 6 (drop 6 (map car_id
        (matchingSorted exampleBuiltins exampleStore worldShowroom pageTwoQuery)))"
      by (simp only: d2 take_map drop_map)
    also have "\<dots> = [''c2'', ''c1'']"
      by (simp add: ms2)
    finally show ?thesis .
  qed
  have tot2: "pg_total (cp_pagination p2) = 8"
    using t2' arg_cong [OF ms2, of length] by simp
  have pages2: "pg_pages (cp_pagination p2) = 2"
    using g2 c by (simp add: tot2 pl2)
  have tot7: "pg_total (cp_pagination p7) = 8"
    by (simp add: t7' ms7)
  show ?thesis
    using ord fb by (simp add: p2 p7 p0 ids tot2 pages2 d7 tot7 g0)
qed

lemma parseFloatOrZero_eq:
  "parseFloatOrZero rt v =
     (case parseFloat rt v of
        NaN \<Rightarrow> Num 0 | Num r \<Rightarrow> Num r | PosInf \<Rightarrow> PosInf | NegInf \<Rightarrow> NegInf)"
  by (simp add: parseFloatOrZero_def split: jsnum.split)

lemma lower_bound_default:
  "q_minPrice q = q_minPrice defaultQuery \<or> parseFloat rt (q_minPrice q) = NaN \<Longrightarrow>
   wh_price_gte (carWhere rt q) = Num 0"
  by (auto simp: carWhere_gte parseFloatOrZero_eq defaultQuery_def parseFloat_def)

lemma upper_bound_dropped:
  "q_maxPrice q = q_maxPrice defaultQuery \<or> q_maxPrice q = JNumber NaN \<or>
   q_maxPrice q = JString [] \<or> toNumber rt (q_maxPrice q) = NaN \<or>
   toNumber rt (q_maxPrice q) = PosInf \<or>
   (\<exists>r. toNumber rt (q_maxPrice q) = Num r \<and> MAX_SAFE_INTEGER \<le> r) \<Longrightarrow>
   wh_price_lte (carWhere rt q) = None"
  by (auto simp: carWhere_lte defaultQuery_def truthy_def lessThanNumber_def toNumber_def)

lemma upper_bound_kept:
  "truthy (q_maxPrice q) \<Longrightarrow> lessThanNumber rt (q_maxPrice q) MAX_SAFE_INTEGER \<Longrightarrow>
   wh_price_lte (carWhere rt q) = Some (parseFloat rt (q_maxPrice q))"
  by (simp add: carWhere_lte)

lemma getCars_lower_bound:
  assumes p: "getCars rt st w userId q = Inr page"
  obtains lo where "wh_price_gte (carWhere rt q) = Num lo"
    and "\<forall>item \<in> set (cp_data page). lo \<le> car_price (sz_car item)"
proof -
  have "isFinite (wh_price_gte (carWhere rt q))"
    using getCars_Inr_window(1) [OF p] by (simp add: priceBoundsFinite_def)
  then obtain lo where lo: "wh_price_gte (carWhere rt q) = Num lo"
    by (cases "wh_price_gte (carWhere rt q)") (simp_all add: isFinite_def)
  have "\<forall>item \<in> set (cp_data page). lo \<le> car_price (sz_car item)"
  proof
    fix item assume "item \<in> set (cp_data page)"
    from carMatches_gte [OF getCars_items_match(2) [OF p this] lo]
    show "lo \<le> car_price (sz_car item)" .
  qed
  with lo show ?thesis by (rule that)
qed

lemma getCars_upper_bound:
  assumes p: "getCars rt st w userId q = Inr page"
    and t: "truthy (q_maxPrice q)" and l: "lessThanNumber rt (q_maxPrice q) MAX_SAFE_INTEGER"
    and hi: "parseFloat rt (q_maxPrice q) = Num hi"
    and i: "item \<in> set (cp_data page)"
  shows "car_price (sz_car item) \<le> hi"
proof -
  have "wh_price_lte (carWhere rt q) = Some (Num hi)"
    using upper_bound_kept [OF t l] hi by simp
  from carMatches_lte [OF getCars_items_match(2) [OF p i] this] show ?thesis .
qed

text \<open>
  C5, as amended: when \<^verbatim>\<open>maxPrice\<close> is truthy and compares below
  \<^verbatim>\<open>Number.MAX_SAFE_INTEGER\<close> (for numbers: not 0 and below it), no returned car has
  a price above \<^verbatim>\<open>parseFloat(maxPrice)\<close> or below the lower bound
  \<^verbatim>\<open>parseFloat(minPrice) || 0\<close>; the lower bound holds for every answer and is 0
  when \<^verbatim>\<open>minPrice\<close> is absent or parses to \<^verbatim>\<open>NaN\<close>; the upper-bound clause is
  dropped when \<^verbatim>\<open>maxPrice\<close> is absent, \<^verbatim>\<open>NaN\<close>, the empty string, or converts to
  \<^verbatim>\<open>NaN\<close>, to infinity or to at least \<^verbatim>\<open>Number.MAX_SAFE_INTEGER\<close>. In these
  cases of defaulting and dropping the price bounds attached are finite; the query is
  answered exactly when the store accepts it, and it fails whenever a price bound attached
  is \<^verbatim>\<open>NaN\<close> or infinite.
\<close>

theorem getCars_price_bounds:
  "(\<forall>page lo hi.
      getCars rt st w userId q = Inr page \<and>
      q_minPrice q = JNumber (Num lo) \<and> q_maxPrice q = JNumber (Num hi) \<and>
      hi \<noteq> 0 \<and> hi < MAX_SAFE_INTEGER \<longrightarrow>
      (\<forall>item \<in> set (cp_data page). lo \<le> car_price (sz_car item) \<and> car_price (sz_car item) \<le> hi)) \<and>
   (\<forall>page hi.
      getCars rt st w userId q = Inr page \<and>
      truthy (q_maxPrice q) \<and> lessThanNumber rt (q_maxPrice q) MAX_SAFE_INTEGER \<and>
      parseFloat rt (q_maxPrice q) = Num hi \<longrightarrow>
      (\<forall>item \<in> set (cp_data page). car_price (sz_car item) \<le> hi)) \<and>
   (\<forall>page. getCars rt st w userId q = Inr page \<longrightarrow>
      (\<exists>lo. wh_price_gte (carWhere rt q) = Num lo \<and>
         (\<forall>item \<in> set (cp_data page). lo \<le> car_price (sz_car item)))) \<and>
   wh_price_gte (carWhere rt q) =
     (case parseFloat rt (q_minPrice q) of
        NaN \<Rightarrow> Num 0 | Num r \<Rightarrow> Num r | PosInf \<Rightarrow> PosInf | NegInf \<Rightarrow> NegInf) \<and>
   (q_minPrice q = q_minPrice defaultQuery \<or> parseFloat rt (q_minPrice q) = NaN \<longrightarrow>
      wh_price_gte (carWhere rt q) = Num 0) \<and>
   (q_maxPrice q = q_maxPrice defaultQuery \<or> q_maxPrice q = JNumber NaN \<or>
    q_maxPrice q = JString [] \<or> toNumber rt (q_maxPrice q) = NaN \<or>
    toNumber rt (q_maxPrice q) = PosInf \<or>
    (\<exists>r. toNumber rt (q_maxPrice q) = Num r \<and> MAX_SAFE_INTEGER \<le> r) \<longrightarrow>
      wh_price_lte (carWhere rt q) = None) \<and>
   (wh_price_gte (carWhere rt q) = Num 0 \<and> wh_price_lte (carWhere rt q) = None \<longrightarrow>
      priceBoundsFinite (carWhere rt q)) \<and>
   ((\<exists>page. getCars rt st w userId q = Inr page) \<longleftrightarrow> storeAccepts rt st q) \<and>
   (\<not> priceBoundsFinite (carWhere rt q) \<longrightarrow>
      getCars rt st w userId q = Inl ''Failed to fetch cars'')"
  (is "?BOTH \<and> ?UPPER \<and> ?LOWER \<and> ?GTE \<and> ?DEFAULT \<and> ?DROPPED \<and> ?FINITE \<and> ?IFF \<and> ?FAIL")
proof -
  have both: ?BOTH
  proof (intro allI impI ballI, elim conjE)
    fix page lo hi item
    assume p: "getCars rt st w userId q = Inr page"
      and lo: "q_minPrice q = JNumber (Num lo)" and hi: "q_maxPrice q = JNumber (Num hi)"
      and nz: "hi \<noteq> 0" and lt: "hi < MAX_SAFE_INTEGER" and i: "item \<in> set (cp_data page)"
    have t: "truthy (q_maxPrice q)" and l: "lessThanNumber rt (q_maxPrice q) MAX_SAFE_INTEGER"
      using hi nz lt by (simp_all add: truthy_def lessThanNumber_def toNumber_def)
    have h: "parseFloat rt (q_maxPrice q) = Num hi"
      by (simp add: hi parseFloat_def)
    have g: "wh_price_gte (carWhere rt q) = Num lo"
      by (simp add: carWhere_gte parseFloatOrZero_eq lo parseFloat_def)
    from carMatches_gte [OF getCars_items_match(2) [OF p i] g]
      getCars_upper_bound [OF p t l h i]
    show "lo \<le> car_price (sz_car item) \<and> car_price (sz_car item) \<le> hi"
      by (rule conjI)
  qed
  have upper: ?UPPER
  proof (intro allI impI ballI, elim conjE)
    fix page hi item
    assume p: "getCars rt st w userId q = Inr page"
      and t: "truthy (q_maxPrice q)" and l: "lessThanNumber rt (q_maxPrice q) MAX_SAFE_INTEGER"
      and hi: "parseFloat rt (q_maxPrice q) = Num hi" and i: "item \<in> set (cp_data page)"
    show "car_price (sz_car item) \<le> hi"
      by (rule getCars_upper_bound [OF p t l hi i])
  qed
  have lower: ?LOWER
  proof (intro allI impI)
    fix page
    assume p: "getCars rt st w userId q = Inr page"
    from getCars_lower_bound [OF p]
    obtain lo where "wh_price_gte (carWhere rt q) = Num lo"
      and "\<forall>item \<in> set (cp_data page). lo \<le> car_price (sz_car item)"
      by this
    then show "\<exists>lo. wh_price_gte (carWhere rt q) = Num lo \<and>
         (\<forall>item \<in> set (cp_data page). lo \<le> car_price (sz_car item))"
      by (intro exI [of _ lo] conjI)
  qed
  have gte: ?GTE
    by (simp add: carWhere_gte parseFloatOrZero_eq)
  have default: ?DEFAULT
    by (rule impI) (rule lower_bound_default)
  have dropped: ?DROPPED
    by (rule impI) (rule upper_bound_dropped)
  have finite: ?FINITE
    by (simp add: priceBoundsFinite_def isFinite_def)
  have iff: ?IFF
    by (rule getCars_succeeds_iff)
  have fail: ?FAIL
    by (simp add: getCars_unfold)
  show ?thesis
    using both upper lower gte default dropped finite iff fail
    by (intro conjI) assumption+
qed

theorem getCars_price_bounds_witness:
  "(case getCars exampleBuiltins exampleStore worldMarket None boundedQuery of
      Inl e \<Rightarrow> False
    | Inr page \<Rightarrow>
        map (\<lambda>item. car_id (sz_car item)) (cp_data page) = [''c5'', ''c1''] \<and>
        list_all (\<lambda>item. 16000 \<le> car_price (sz_car item) \<and> car_price (sz_car item) \<le> 30000)
          (cp_data page)) \<and>
   (case getCars exampleBuiltins exampleStore worldMarket None stringQuery of
      Inl e \<Rightarrow> False
    | Inr page \<Rightarrow>
        map (\<lambda>item. car_id (sz_car item)) (cp_data page) = [''c2'', ''c1'', ''c5''] \<and>
        list_all (\<lambda>item. 0 \<le> car_price (sz_car item) \<and> car_price (sz_car item) \<le> 30000)
          (cp_data page)) \<and>
   wh_price_gte (carWhere exampleBuiltins stringQuery) = Num 0 \<and>
   wh_price_lte (carWhere exampleBuiltins defaultQuery) = None \<and>
   wh_price_lte (carWhere exampleBuiltins (defaultQuery\<lparr>q_maxPrice := JString ''abc''\<rparr>)) = None \<and>
   priceBoundsFinite (carWhere exampleBuiltins defaultQuery) \<and>
   getCars exampleBuiltins exampleStore worldMarket None
     (defaultQuery\<lparr>q_minPrice := JNumber PosInf\<rparr>) = Inl ''Failed to fetch cars''"
proof -
  note tb = getCars_price_bounds [where rt = exampleBuiltins and st = exampleStore and
      w = worldMarket and userId = None and q = boundedQuery]
  note ts = getCars_price_bounds [where rt = exampleBuiltins and st = exampleStore and
      w = worldMarket and userId = None and q = stringQuery]
  note td = getCars_price_bounds [where rt = exampleBuiltins and st = exampleStore and
      w = worldMarket and userId = None and q = defaultQuery]
  let ?abc = "defaultQuery\<lparr>q_maxPrice := JString ''abc''\<rparr>"
  let ?inf = "defaultQuery\<lparr>q_minPrice := JNumber PosInf\<rparr>"
  note ta = getCars_price_bounds [where rt = exampleBuiltins and st = exampleStore and
      w = worldMarket and userId = None and q = ?abc]
  note ti = getCars_price_bounds [where rt = exampleBuiltins and st = exampleStore and
      w = worldMarket and userId = None and q = ?inf]
  have "map_sum id (\<lambda>p. map (\<lambda>item. car_id (sz_car item)) (cp_data p))
          (getCars exampleBuiltins exampleStore worldMarket None boundedQuery) = Inr [''c5'', ''c1'']"
    by code_simp
  then obtain page where p: "getCars exampleBuiltins exampleStore worldMarket None boundedQuery = Inr page"
    and ids: "map (\<lambda>item. car_id (sz_car item)) (cp_data page) = [''c5'', ''c1'']"
    by (cases "getCars exampleBuiltins exampleStore worldMarket None boundedQuery") auto
  have b: "q_minPrice boundedQuery = JNumber (Num 16000) \<and>
      q_maxPrice boundedQuery = JNumber (Num 30000) \<and>
      (30000::rat) \<noteq> 0 \<and> (30000::rat) < MAX_SAFE_INTEGER"
    by (simp add: boundedQuery_def MAX_SAFE_INTEGER_def)
  from tb [THEN conjunct1, rule_format, OF conjI [OF p b]]
  have a1: "list_all (\<lambda>item. 16000 \<le> car_price (sz_car item) \<and> car_price (sz_car item) \<le> 30000)
          (cp_data page)"
    by (simp add: list_all_iff)
  have "map_sum id (\<lambda>p. map (\<lambda>item. car_id (sz_car item)) (cp_data p))
          (getCars exampleBuiltins exampleStore worldMarket None stringQuery) =
        Inr [''c2'', ''c1'', ''c5'']"
    by code_simp
  then obtain spage where sp: "getCars exampleBuiltins exampleStore worldMarket None stringQuery = Inr spage"
    and sids: "map (\<lambda>item. car_id (sz_car item)) (cp_data spage) = [''c2'', ''c1'', ''c5'']"
    by (cases "getCars exampleBuiltins exampleStore worldMarket None stringQuery") auto
  have sb: "truthy (q_maxPrice stringQuery) \<and>
      lessThanNumber exampleBuiltins (q_maxPrice stringQuery) MAX_SAFE_INTEGER \<and>
      parseFloat exampleBuiltins (q_maxPrice stringQuery) = Num 30000"
    by (simp add: stringQuery_def truthy_def lessThanNumber_def toNumber_def parseFloat_def
          exampleBuiltins_def MAX_SAFE_INTEGER_def)
  have nan: "q_minPrice stringQuery = q_minPrice defaultQuery \<or>
      parseFloat exampleBuiltins (q_minPrice stringQuery) = NaN"
    by (simp add: stringQuery_def parseFloat_def exampleBuiltins_def)
  from ts [THEN conjunct2, THEN conjunct1, rule_format, OF conjI [OF sp sb]]
  have up: "\<forall>item \<in> set (cp_data spage). car_price (sz_car item) \<le> 30000"
    by (intro ballI)
  from ts [THEN conjunct2, THEN conjunct2, THEN conjunct2, THEN conjunct2, THEN conjunct1,
      rule_format, OF nan]
  have a2: "wh_price_gte (carWhere exampleBuiltins stringQuery) = Num 0" .
  from ts [THEN conjunct2, THEN conjunct2, THEN conjunct1, rule_format, OF sp]
  obtain lo where lo: "wh_price_gte (carWhere exampleBuiltins stringQuery) = Num lo"
    and low: "\<forall>item \<in> set (cp_data spage). lo \<le> car_price (sz_car item)"
    by (elim exE conjE) (rule that, assumption+)
  have "lo = 0"
    using lo a2 by simp
  then have a1s: "list_all (\<lambda>item. 0 \<le> car_price (sz_car item) \<and> car_price (sz_car item) \<le> 30000)
          (cp_data spage)"
    using up low by (simp add: list_all_iff)
  have d: "q_maxPrice defaultQuery = q_maxPrice defaultQuery \<or> q_maxPrice defaultQuery = JNumber NaN \<or>
      q_maxPrice defaultQuery = JString [] \<or> toNumber exampleBuiltins (q_maxPrice defaultQuery) = NaN \<or>
      toNumber exampleBuiltins (q_maxPrice defaultQuery) = PosInf \<or>
      (\<exists>r. toNumber exampleBuiltins (q_maxPrice defaultQuery) = Num r \<and> MAX_SAFE_INTEGER \<le> r)"
    by simp
  from td [THEN conjunct2, THEN conjunct2, THEN conjunct2, THEN conjunct2, THEN conjunct2,
      THEN conjunct1, rule_format, OF d]
  have a4: "wh_price_lte (carWhere exampleBuiltins defaultQuery) = None" .
  have dm: "q_minPrice defaultQuery = q_minPrice defaultQuery \<or>
      parseFloat exampleBuiltins (q_minPrice defaultQuery) = NaN"
    by simp
  from td [THEN conjunct2, THEN conjunct2, THEN conjunct2, THEN conjunct2, THEN conjunct1,
      rule_format, OF dm]
  have a4': "wh_price_gte (carWhere exampleBuiltins defaultQuery) = Num 0" .
  from td [THEN conjunct2, THEN conjunct2, THEN conjunct2, THEN conjunct2, THEN conjunct2,
      THEN conjunct2, THEN conjunct1, rule_format, OF conjI [OF a4' a4]]
  have a6: "priceBoundsFinite (carWhere exampleBuiltins defaultQuery)" .
  have n: "q_maxPrice ?abc = q_maxPrice defaultQuery \<or> q_maxPrice ?abc = JNumber NaN \<or>
      q_maxPrice ?abc = JString [] \<or> toNumber exampleBuiltins (q_maxPrice ?abc) = NaN \<or>
      toNumber exampleBuiltins (q_maxPrice ?abc) = PosInf \<or>
      (\<exists>r. toNumber exampleBuiltins (q_maxPrice ?abc) = Num r \<and> MAX_SAFE_INTEGER \<le> r)"
    by (simp add: toNumber_def exampleBuiltins_def)
  from ta [THEN conjunct2, THEN conjunct2, THEN conjunct2, THEN conjunct2, THEN conjunct2,
      THEN conjunct1, rule_format, OF n]
  have a5: "wh_price_lte (carWhere exampleBuiltins ?abc) = None" .
  have nf: "\<not> priceBoundsFinite (carWhere exampleBuiltins ?inf)"
    by code_simp
  from ti [THEN conjunct2, THEN conjunct2, THEN conjunct2, THEN conjunct2, THEN conjunct2,
      THEN conjunct2, THEN conjunct2, THEN conjunct2, rule_format, OF nf]
  have a7: "getCars exampleBuiltins exampleStore worldMarket None ?inf =
      Inl ''Failed to fetch cars''" .
  show ?thesis
    using a1 a1s a2 a4 a5 a6 a7 by (simp add: p ids sp sids)
qed

text \<open>
  The claim as stated fails: with \<^verbatim>\<open>minPrice = 0\<close> and \<^verbatim>\<open>maxPrice = 0\<close> both
  supplied, the guard \<^verbatim>\<open>maxPrice && ...\<close> is false, no upper bound is attached, and
  cars priced 30000, 15000 and 20000 are returned.
\<close>

theorem getCars_zero_maxPrice_counterexample:
  "q_minPrice zeroMaxQuery = JNumber (Num 0) \<and>
   q_maxPrice zeroMaxQuery = JNumber (Num 0) \<and>
   map_sum id (\<lambda>page. map (\<lambda>item. car_price (sz_car item)) (cp_data page))
     (getCars exampleBuiltins exampleStore worldMarket None zeroMaxQuery) =
     Inr [30000, 15000, 20000] \<and>
   (case getCars exampleBuiltins exampleStore worldMarket None zeroMaxQuery of
      Inl e \<Rightarrow> False
    | Inr page \<Rightarrow>
        \<not> list_all (\<lambda>item. 0 \<le> car_price (sz_car item) \<and> car_price (sz_car item) \<le> 0)
            (cp_data page))"
  by code_simp

lemma set_distinctValues:
  "set (map g (distinctValues f cs)) = g ` f ` {c \<in> set cs. car_status c = AVAILABLE}"
  by (simp add: distinctValues_def image_image)

lemma length_distinctValues:
  "length (distinctValues f cs) = card (f ` {c \<in> set cs. car_status c = AVAILABLE})"
  by (simp add: distinctValues_def length_remdups_card_conv)

lemma distinct_distinctValues:
  "distinct (map g (distinctValues f cs)) \<longleftrightarrow>
     inj_on g (f ` {c \<in> set cs. car_status c = AVAILABLE})"
  by (simp add: distinctValues_def distinct_map)

lemma aggregateMin_eq:
  "aggregateMin ps = (if ps = [] then None else Some (Min (set ps)))"
  by (cases ps) (simp_all add: aggregateMin_def Min.set_eq_fold [symmetric])

lemma aggregateMax_eq:
  "aggregateMax ps = (if ps = [] then None else Some (Max (set ps)))"
  by (cases ps) (simp_all add: aggregateMax_def Max.set_eq_fold [symmetric])

lemma available_prices_empty:
  "map car_price (filter (\<lambda>c. car_status c = AVAILABLE) (cars w)) = [] \<longleftrightarrow> availableCars w = {}"
  by (auto simp: availableCars_def filter_empty_conv)

text \<open>
  C7, as amended: \<^verbatim>\<open>getCarFilters\<close> returns the lowercase forms of the make,
  bodyType, fuelType and transmission values of the AVAILABLE cars, one entry for each
  distinct stored value (so the entries are pairwise distinct exactly when no two stored
  values have the same lowercase form), together with the minimum and maximum price over
  the AVAILABLE cars, each as the nearest binary64 number, 0 and 100000 when there is no
  AVAILABLE car.
\<close>

theorem getCarFilters_values:
  "\<exists>f. getCarFilters rt w = Inr f \<and>
     set (cf_makes f) = toLowerCaseStr rt ` car_make ` availableCars w \<and>
     set (cf_bodyTypes f) = toLowerCaseStr rt ` car_bodyType ` availableCars w \<and>
     set (cf_fuelTypes f) = toLowerCaseStr rt ` car_fuelType ` availableCars w \<and>
     set (cf_transmissions f) = toLowerCaseStr rt ` car_transmission ` availableCars w \<and>
     length (cf_makes f) = card (car_make ` availableCars w) \<and>
     length (cf_bodyTypes f) = card (car_bodyType ` availableCars w) \<and>
     length (cf_fuelTypes f) = card (car_fuelType ` availableCars w) \<and>
     length (cf_transmissions f) = card (car_transmission ` availableCars w) \<and>
     (distinct (cf_makes f) \<longleftrightarrow> inj_on (toLowerCaseStr rt) (car_make ` availableCars w)) \<and>
     (distinct (cf_bodyTypes f) \<longleftrightarrow>
        inj_on (toLowerCaseStr rt) (car_bodyType ` availableCars w)) \<and>
     (distinct (cf_fuelTypes f) \<longleftrightarrow>
        inj_on (toLowerCaseStr rt) (car_fuelType ` availableCars w)) \<and>
     (distinct (cf_transmissions f) \<longleftrightarrow>
        inj_on (toLowerCaseStr rt) (car_transmission ` availableCars w)) \<and>
     pr_min (cf_priceRange f) =
       (if availableCars w = {} then 0 else roundDouble (Min (car_price ` availableCars w))) \<and>
     pr_max (cf_priceRange f) =
       (if availableCars w = {} then 100000 else roundDouble (Max (car_price ` availableCars w)))"
proof -
  let ?ps = "map car_price (filter (\<lambda>c. car_status c = AVAILABLE) (cars w))"
  have ps: "set ?ps = car_price ` availableCars w"
    by (simp add: availableCars_def)
  have mn: "(case aggregateMin ?ps of Some p \<Rightarrow> roundDouble p | None \<Rightarrow> 0) =
      (if availableCars w = {} then 0 else roundDouble (Min (car_price ` availableCars w)))"
    unfolding aggregateMin_eq available_prices_empty ps by simp
  have mx: "(case aggregateMax ?ps of Some p \<Rightarrow> roundDouble p | None \<Rightarrow> 100000) =
      (if availableCars w = {} then 100000 else roundDouble (Max (car_price ` availableCars w)))"
    unfolding aggregateMax_eq available_prices_empty ps by simp
  show ?thesis
    unfolding getCarFilters_def Let_def
    by (intro exI conjI; (rule refl)?)
      (simp_all add: set_distinctValues length_distinctValues distinct_distinctValues
         availableCars_def mn mx del: set_map)
qed

text \<open>
  The claim as stated fails. The price aggregate is restricted to AVAILABLE cars: with a
  SOLD car at 5000 and an UNAVAILABLE car at 40000 the range returned is 15000 to 30000,
  not the global 5000 to 40000. And the values are made distinct before they are put in
  lower case: with the makes Toyota and toyota both AVAILABLE, the lowercase value
  toyota is returned twice.
\<close>

theorem getCarFilters_global_price_counterexample:
  "map_sum id (\<lambda>f. (pr_min (cf_priceRange f), pr_max (cf_priceRange f)))
     (getCarFilters exampleBuiltins worldMarket) = Inr (15000, 30000) \<and>
   Min (car_price ` set (cars worldMarket)) = 5000 \<and>
   Max (car_price ` set (cars worldMarket)) = 40000 \<and>
   map_sum id (\<lambda>f. distinct (cf_makes f)) (getCarFilters exampleBuiltins worldMarket) = Inr False \<and>
   map_sum id (\<lambda>f. count_list (cf_makes f) ''toyota'')
     (getCarFilters exampleBuiltins worldMarket) = Inr 2"
  by code_simp

theorem getCarFilters_values_witness:
  "map_sum id (\<lambda>f. pr_min (cf_priceRange f)) (getCarFilters exampleBuiltins worldMarket) = Inr 15000 \<and>
   map_sum id (\<lambda>f. pr_max (cf_priceRange f)) (getCarFilters exampleBuiltins worldMarket) = Inr 30000 \<and>
   map_sum id (\<lambda>f. set (cf_makes f)) (getCarFilters exampleBuiltins worldMarket) =
     Inr {''toyota'', ''honda''} \<and>
   map_sum id (\<lambda>f. length (cf_makes f)) (getCarFilters exampleBuiltins worldMarket) = Inr 3 \<and>
   map_sum id (\<lambda>f. distinct (cf_makes f)) (getCarFilters exampleBuiltins worldMarket) = Inr False \<and>
   map_sum id (\<lambda>f. distinct (cf_bodyTypes f)) (getCarFilters exampleBuiltins worldMarket) = Inr True"
proof -
  have av: "filter (\<lambda>c. car_status c = AVAILABLE) (cars worldMarket) =
      [mkCar ''c1'' ''Toyota'' 20000 AVAILABLE 1, mkCar ''c2'' ''Honda'' 15000 AVAILABLE 2,
       mkCar ''c5'' ''toyota'' 30000 AVAILABLE 5]"
    by (simp add: worldMarket_def mkCar_def)
  have ne: "availableCars worldMarket \<noteq> {}"
    by (simp add: availableCars_def av)
  have prices: "car_price ` availableCars worldMarket = {20000, 15000, 30000}"
    by (simp add: availableCars_def av mkCar_def)
  have makes: "car_make ` availableCars worldMarket = {''Toyota'', ''Honda'', ''toyota''}"
    by (simp add: availableCars_def av mkCar_def)
  have bodies: "car_bodyType ` availableCars worldMarket = {''SUV''}"
    by (simp add: availableCars_def av mkCar_def)
  have low: "toLowerCaseStr exampleBuiltins ''Toyota'' = ''toyota''"
    "toLowerCaseStr exampleBuiltins ''Honda'' = ''honda''"
    "toLowerCaseStr exampleBuiltins ''toyota'' = ''toyota''"
    by (simp_all add: exampleBuiltins_def)
  have rd: "roundDouble 15000 = 15000" "roundDouble 30000 = 30000"
    by code_simp+
  have inj: "inj_on (toLowerCaseStr exampleBuiltins) (car_bodyType ` availableCars worldMarket)"
    by (simp add: bodies)
  have ninj: "\<not> inj_on (toLowerCaseStr exampleBuiltins) (car_make ` availableCars worldMarket)"
    unfolding makes by (simp add: low)
  have cardm: "card (car_make ` availableCars worldMarket) = 3"
    unfolding makes by simp
  from getCarFilters_values [of exampleBuiltins worldMarket] obtain f where
    f: "getCarFilters exampleBuiltins worldMarket = Inr f"
    and m: "set (cf_makes f) = toLowerCaseStr exampleBuiltins ` car_make ` availableCars worldMarket"
    and lm: "length (cf_makes f) = card (car_make ` availableCars worldMarket)"
    and dm: "distinct (cf_makes f) \<longleftrightarrow>
        inj_on (toLowerCaseStr exampleBuiltins) (car_make ` availableCars worldMarket)"
    and b: "distinct (cf_bodyTypes f) \<longleftrightarrow>
        inj_on (toLowerCaseStr exampleBuiltins) (car_bodyType ` availableCars worldMarket)"
    and mn: "pr_min (cf_priceRange f) =
       (if availableCars worldMarket = {} then 0
        else roundDouble (Min (car_price ` availableCars worldMarket)))"
    and mx: "pr_max (cf_priceRange f) =
       (if availableCars worldMarket = {} then 100000
        else roundDouble (Max (car_price ` availableCars worldMarket)))"
    by (elim exE conjE) (rule that, assumption+)
  have "pr_min (cf_priceRange f) = 15000" and "pr_max (cf_priceRange f) = 30000"
    using mn mx ne by (simp_all add: prices rd)
  moreover have "set (cf_makes f) = {''toyota'', ''honda''}"
    unfolding m makes by (simp add: low insert_commute)
  moreover have "length (cf_makes f) = 3"
    by (simp only: lm cardm)
  moreover have "\<not> distinct (cf_makes f)"
    using dm ninj by simp
  moreover have "distinct (cf_bodyTypes f)"
    using b inj by simp
  ultimately show ?thesis
    by (simp add: f)
qed

end
